theory Spec2Isabelle
  imports Main "HOL-Library.Word"
begin

unbundle bit_operations_syntax

section \<open>PPP encapsulation: header codec, protocol registry, rewrite builder\<close>

text \<open>
  A shallow embedding of \<^verbatim>\<open>src/plugins/ppp/ppp.c\<close>. Functions of that file keep
  their names. What the file uses from headers and libraries that are not part of it
  (the byte-order macros, the \<^verbatim>\<open>format\<close>/\<^verbatim>\<open>unformat\<close> primitives, the
  vector and hash macros, the node table) is modelled in the first subsections and marked
  as such.
\<close>

subsection \<open>Machine integers and byte order\<close>

type_synonym u8 = "8 word"
type_synonym u16 = "16 word"
type_synonym u32 = "32 word"

text \<open>\<^verbatim>\<open>ppp_protocol_t\<close> is a C enum; it travels through \<^verbatim>\<open>va_arg (*args, u32)\<close>.\<close>

type_synonym ppp_protocol_t = u32

text \<open>
  The byte order of the host is a parameter of the model: the byte-order macros swap on a
  little-endian host and are the identity on a big-endian one, and a 16-bit field lies in
  memory in host order.
\<close>

datatype byte_order = Little_endian | Big_endian

definition clib_byte_swap_u16 :: "u16 \<Rightarrow> u16" where
  "clib_byte_swap_u16 x = push_bit 8 x OR drop_bit 8 x"

definition clib_host_to_net_u16 :: "byte_order \<Rightarrow> u16 \<Rightarrow> u16" where
  "clib_host_to_net_u16 e x = (case e of Little_endian \<Rightarrow> clib_byte_swap_u16 x | Big_endian \<Rightarrow> x)"

definition clib_net_to_host_u16 :: "byte_order \<Rightarrow> u16 \<Rightarrow> u16" where
  "clib_net_to_host_u16 e x = (case e of Little_endian \<Rightarrow> clib_byte_swap_u16 x | Big_endian \<Rightarrow> x)"

text \<open>The two bytes of a 16-bit value: most significant, least significant.\<close>

definition hi_byte :: "u16 \<Rightarrow> u8" where
  "hi_byte x = ucast (drop_bit 8 x)"

definition lo_byte :: "u16 \<Rightarrow> u8" where
  "lo_byte x = ucast x"

text \<open>A 16-bit object in memory: the bytes at the lower and at the higher address.\<close>

definition store_u16 :: "byte_order \<Rightarrow> u16 \<Rightarrow> u8 list" where
  "store_u16 e x = (case e of Little_endian \<Rightarrow> [lo_byte x, hi_byte x]
                            | Big_endian \<Rightarrow> [hi_byte x, lo_byte x])"

definition load_u16 :: "byte_order \<Rightarrow> u8 \<Rightarrow> u8 \<Rightarrow> u16" where
  "load_u16 e b0 b1 = (case e of Little_endian \<Rightarrow> push_bit 8 (ucast b1) OR ucast b0
                               | Big_endian \<Rightarrow> push_bit 8 (ucast b0) OR ucast b1)"

subsection \<open>The header in memory\<close>

text \<open>
  Modelled from the spec: the declaration of \<^verbatim>\<open>ppp_header_t\<close> is in a header file
  that is not part of the source; the wire format table of the spec gives its layout:
  address at offset 0, control at offset 1, protocol (two bytes) at offset 2, four bytes
  in all, no padding.
\<close>

definition sizeof_ppp_header_t :: nat where
  "sizeof_ppp_header_t = 4"

definition offsetof_address :: nat where "offsetof_address = 0"
definition offsetof_control :: nat where "offsetof_control = 1"
definition offsetof_protocol :: nat where "offsetof_protocol = 2"

text \<open>
  Memory seen through a pointer \<^verbatim>\<open>h\<close>: the byte at each offset from \<^verbatim>\<open>h\<close>.
  Every load is recorded in a trace of the offsets read, in program order.
\<close>

type_synonym memory = "nat \<Rightarrow> u8"
type_synonym read_trace = "nat list"

definition read_u8 :: "memory \<Rightarrow> nat \<Rightarrow> read_trace \<Rightarrow> u8 \<times> read_trace" where
  "read_u8 h off tr = (h off, tr @ [off])"

definition read_u16 :: "byte_order \<Rightarrow> memory \<Rightarrow> nat \<Rightarrow> read_trace \<Rightarrow> u16 \<times> read_trace" where
  "read_u16 e h off tr = (load_u16 e (h off) (h (off + 1)), tr @ [off, off + 1])"

text \<open>Stores into a header object held as its four bytes.\<close>

definition set_address :: "u8 list \<Rightarrow> u8 \<Rightarrow> u8 list" where
  "set_address h v = h[offsetof_address := v]"

definition set_control :: "u8 list \<Rightarrow> u8 \<Rightarrow> u8 list" where
  "set_control h v = h[offsetof_control := v]"

definition set_protocol :: "byte_order \<Rightarrow> u8 list \<Rightarrow> u16 \<Rightarrow> u8 list" where
  "set_protocol e h v =
     h[offsetof_protocol := store_u16 e v ! 0, offsetof_protocol + 1 := store_u16 e v ! 1]"

subsection \<open>The registry\<close>

text \<open>
  Modelled from the spec: \<^verbatim>\<open>ppp_protocol_info_t\<close>, \<^verbatim>\<open>ppp_main_t\<close> and
  \<^verbatim>\<open>vlib_node_t\<close> are declared in header files that are not part of the source. The
  fields are the ones \<^verbatim>\<open>ppp.c\<close> accesses; the two hash tables are maps from the key to
  the index of a record in \<^verbatim>\<open>protocol_infos\<close>.
\<close>

record ppp_protocol_info_t =
  name :: string
  protocol :: ppp_protocol_t
  node_index :: u32
  next_index :: u32

text \<open>
  A node of the packet-processing graph: only its optional formatter of a buffer is used
  here. The formatter receives the text so far, the memory, the offset of the first byte
  to render and the number of bytes.
\<close>

type_synonym format_function_t = "string \<Rightarrow> memory \<Rightarrow> nat \<Rightarrow> u32 \<Rightarrow> string"

record vlib_node_t =
  format_buffer :: "format_function_t option"

record vlib_main_t =
  nodes :: "vlib_node_t list"

record ppp_main_t =
  vlib_main :: vlib_main_t
  protocol_infos :: "ppp_protocol_info_t list"
  protocol_info_by_name :: "string \<rightharpoonup> nat"
  protocol_info_by_protocol :: "ppp_protocol_t \<rightharpoonup> nat"

text \<open>
  \<^verbatim>\<open>add_protocol\<close>: \<^verbatim>\<open>vec_add2\<close> appends one record, whose index is the old
  length; the record is filled in; \<^verbatim>\<open>hash_set\<close> and \<^verbatim>\<open>hash_set_mem\<close> bind the
  protocol and the name to that index, replacing a binding that is already there. There is
  no check and no failure path.
\<close>

definition add_protocol :: "ppp_main_t \<Rightarrow> ppp_protocol_t \<Rightarrow> string \<Rightarrow> ppp_main_t" where
  "add_protocol pm protocol' protocol_name =
     (let i = length (protocol_infos pm);
          pi = \<lparr>name = protocol_name, protocol = protocol', node_index = NOT 0, next_index = NOT 0\<rparr>
      in pm\<lparr>protocol_infos := protocol_infos pm @ [pi],
            protocol_info_by_protocol := (protocol_info_by_protocol pm)(protocol' \<mapsto> i),
            protocol_info_by_name := (protocol_info_by_name pm)(name pi \<mapsto> i)\<rparr>)"

text \<open>
  The start of \<^verbatim>\<open>ppp_init\<close>: the main structure is cleared, the node table is
  attached and the two hash tables are created empty.
\<close>

definition ppp_main_cleared :: "vlib_main_t \<Rightarrow> ppp_main_t" where
  "ppp_main_cleared vm =
     \<lparr>vlib_main = vm, protocol_infos = [],
      protocol_info_by_name = Map.empty, protocol_info_by_protocol = Map.empty\<rparr>"

text \<open>
  The loop \<^verbatim>\<open>foreach_ppp_protocol\<close> of \<^verbatim>\<open>ppp_init\<close> calls \<^verbatim>\<open>add_protocol\<close>
  once for each row (number, name) of the built-in table, in order. The table itself is in
  a header file that is not part of the source, so it is a parameter.
\<close>

fun add_protocols :: "ppp_main_t \<Rightarrow> (ppp_protocol_t \<times> string) list \<Rightarrow> ppp_main_t" where
  "add_protocols pm [] = pm"
| "add_protocols pm ((n, s) # rows) = add_protocols (add_protocol pm n s) rows"

text \<open>
  \<^verbatim>\<open>vec_elt_at_index\<close>: the element at an index, an assertion failure outside the
  vector (\<open>None\<close>).
\<close>

definition vec_elt_at_index :: "'a list \<Rightarrow> nat \<Rightarrow> 'a option" where
  "vec_elt_at_index v i = (if i < length v then Some (v ! i) else None)"

text \<open>
  Modelled from the spec: \<^verbatim>\<open>ppp_get_protocol_info\<close> is an inline function of a header
  file that is not part of the source; it is the spec's \<^verbatim>\<open>lookup_by_protocol\<close>: the
  record the protocol index points to, none for an unknown identifier.
\<close>

definition ppp_get_protocol_info :: "ppp_main_t \<Rightarrow> ppp_protocol_t \<Rightarrow> ppp_protocol_info_t option" where
  "ppp_get_protocol_info pm p =
     (case protocol_info_by_protocol pm p of
        None \<Rightarrow> None
      | Some i \<Rightarrow> vec_elt_at_index (protocol_infos pm) i)"

text \<open>
  Modelled from the spec: \<^verbatim>\<open>lookup_by_name\<close>, the record the name index points to,
  as the parser of a protocol name resolves it.
\<close>

definition lookup_by_name :: "ppp_main_t \<Rightarrow> string \<Rightarrow> ppp_protocol_info_t option" where
  "lookup_by_name pm n =
     (case protocol_info_by_name pm n of
        None \<Rightarrow> None
      | Some i \<Rightarrow> vec_elt_at_index (protocol_infos pm) i)"

text \<open>
  Modelled from the spec: \<^verbatim>\<open>register_handler\<close>
  (\<^verbatim>\<open>ppp_register_input_protocol\<close>, defined in a file that is not part of the
  source): finds the record by its protocol and sets its handler node; no record is the
  failure \<^verbatim>\<open>UnknownProtocol\<close> (\<open>None\<close>).
\<close>

definition ppp_register_input_protocol :: "ppp_main_t \<Rightarrow> ppp_protocol_t \<Rightarrow> u32 \<Rightarrow> ppp_main_t option" where
  "ppp_register_input_protocol pm p node_index' =
     (case protocol_info_by_protocol pm p of
        None \<Rightarrow> None
      | Some i \<Rightarrow>
          (case vec_elt_at_index (protocol_infos pm) i of
             None \<Rightarrow> None
           | Some pi \<Rightarrow>
               Some (pm\<lparr>protocol_infos := (protocol_infos pm)[i := pi\<lparr>node_index := node_index'\<rparr>]\<rparr>)))"

text \<open>\<^verbatim>\<open>vlib_get_node\<close>: the node at an index of the node table.\<close>

definition vlib_get_node :: "vlib_main_t \<Rightarrow> u32 \<Rightarrow> vlib_node_t option" where
  "vlib_get_node vm i = vec_elt_at_index (nodes vm) (unat i)"

subsection \<open>The formatting primitives\<close>

text \<open>
  Modelled from the spec: \<^verbatim>\<open>format\<close> and its helpers belong to a library that is not
  part of the source (the spec's opaque formatting primitives). \<^verbatim>\<open>format (s, fmt, ...)\<close>
  appends the rendering to the vector \<^verbatim>\<open>s\<close>. The directives used by \<^verbatim>\<open>ppp.c\<close>:
  \<^verbatim>\<open>%s\<close> appends a string, \<^verbatim>\<open>%04x\<close> and \<^verbatim>\<open>%02x\<close> append a number in lower-case
  hexadecimal, padded with zeros on the left to at least 4 or 2 digits, \<^verbatim>\<open>%U\<close> calls
  a formatting function.
\<close>

definition hex_digit :: "nat \<Rightarrow> char" where
  "hex_digit d = ''0123456789abcdef'' ! d"

function hex_digits :: "nat \<Rightarrow> string" where
  "hex_digits n = (if n < 16 then [hex_digit n] else hex_digits (n div 16) @ [hex_digit (n mod 16)])"
  by pat_completeness auto
termination
  by (relation "measure id") auto

declare hex_digits.simps [simp del]

definition format_x :: "nat \<Rightarrow> nat \<Rightarrow> string" where
  "format_x width n = replicate (width - length (hex_digits n)) (CHR ''0'') @ hex_digits n"

definition newline :: char where
  "newline = CHR 0x0A"

text \<open>
  \<^verbatim>\<open>format_get_indent\<close>: the column the text has reached, that is the number of
  characters after its last newline. \<^verbatim>\<open>format_white_space\<close>: that many blanks.
\<close>

definition format_get_indent :: "string \<Rightarrow> nat" where
  "format_get_indent s = length (takeWhile (\<lambda>c. c \<noteq> newline) (rev s))"

definition format_white_space :: "string \<Rightarrow> nat \<Rightarrow> string" where
  "format_white_space s n = s @ replicate n (CHR '' '')"

subsection \<open>Formatting a protocol and a header\<close>

definition format_ppp_protocol :: "ppp_main_t \<Rightarrow> string \<Rightarrow> ppp_protocol_t \<Rightarrow> string" where
  "format_ppp_protocol pm s p =
     (case ppp_get_protocol_info pm p of
        Some pi \<Rightarrow> s @ name pi
      | None \<Rightarrow> s @ ''0x'' @ format_x 4 (unat p))"

text \<open>
  What stops a run of the formatter other than its return: the dereference of a null
  pointer, an index outside a vector.
\<close>

datatype fault = Null_pointer | Index_out_of_range

text \<open>
  \<^verbatim>\<open>format_ppp_header_with_length\<close>, statement by statement. The result is the text
  and the trace of the offsets of \<^verbatim>\<open>h\<close> that were loaded; the loads of a nested
  formatter are its own and are not in the trace. The initialiser of \<^verbatim>\<open>p\<close> loads
  \<^verbatim>\<open>h->protocol\<close> before the first statement.
\<close>

definition format_ppp_header_with_length ::
  "byte_order \<Rightarrow> ppp_main_t \<Rightarrow> string \<Rightarrow> memory \<Rightarrow> u32 \<Rightarrow> fault + (string \<times> read_trace)" where
  "format_ppp_header_with_length e pm s h max_header_bytes =
     (let (h_protocol, tr0) = read_u16 e h offsetof_protocol [];
          p = (ucast (clib_net_to_host_u16 e h_protocol) :: ppp_protocol_t);
          header_bytes = (word_of_nat sizeof_ppp_header_t :: u32)
      in if max_header_bytes \<noteq> 0 \<and> header_bytes > max_header_bytes
         then Inr (s @ ''ppp header truncated'', tr0)
         else
           let indent = format_get_indent s;
               s1 = format_ppp_protocol pm (s @ ''PPP '') p;
               (a, tr1) = read_u8 h offsetof_address tr0;
               (s2, tr2) = (if a \<noteq> 0xff
                            then (let (a', t) = read_u8 h offsetof_address tr1
                                  in (s1 @ '', address 0x'' @ format_x 2 (unat a'), t))
                            else (s1, tr1));
               (c, tr3) = read_u8 h offsetof_control tr2;
               (s3, tr4) = (if c \<noteq> 0x03
                            then (let (c', t) = read_u8 h offsetof_control tr3
                                  in (s2 @ '', control 0x'' @ format_x 2 (unat c'), t))
                            else (s2, tr3))
           in if max_header_bytes \<noteq> 0 \<and> header_bytes > max_header_bytes
              then (case ppp_get_protocol_info pm p of
                      None \<Rightarrow> Inl Null_pointer
                    | Some pi \<Rightarrow>
                        (case vlib_get_node (vlib_main pm) (node_index pi) of
                           None \<Rightarrow> Inl Index_out_of_range
                         | Some node \<Rightarrow>
                             (case format_buffer node of
                                None \<Rightarrow> Inr (s3, tr4)
                              | Some f \<Rightarrow>
                                  Inr (f (format_white_space (s3 @ [newline]) indent) h
                                         sizeof_ppp_header_t (max_header_bytes - header_bytes),
                                       tr4))))
              else Inr (s3, tr4))"

text \<open>\<^verbatim>\<open>format_ppp_header\<close>: the same with the bound 0.\<close>

definition format_ppp_header ::
  "byte_order \<Rightarrow> ppp_main_t \<Rightarrow> string \<Rightarrow> memory \<Rightarrow> fault + (string \<times> read_trace)" where
  "format_ppp_header e pm s h = format_ppp_header_with_length e pm s h 0"

text \<open>The rendered text of a run that returned.\<close>

definition rendered :: "fault + (string \<times> read_trace) \<Rightarrow> string option" where
  "rendered r = (case r of Inl _ \<Rightarrow> None | Inr (s, _) \<Rightarrow> Some s)"

text \<open>A header and its trailing payload laid out in memory from offset 0.\<close>

definition memory_of :: "u8 list \<Rightarrow> memory" where
  "memory_of bs = (\<lambda>off. if off < length bs then bs ! off else 0)"

subsection \<open>The parsing primitives\<close>

text \<open>
  The input of a parser is the text not yet consumed. A parser returns 1 and has written
  its result (\<open>Match\<close>, with the result and the input left), or returns 0 and has written
  nothing (\<open>No_match\<close>, with the input as the call left it), or stops on a failed
  assertion.
\<close>

datatype 'a unformat_result = Match 'a string | No_match string | Assertion_failed

text \<open>
  Modelled from the spec: \<^verbatim>\<open>unformat\<close>, \<^verbatim>\<open>unformat_user\<close> and
  \<^verbatim>\<open>unformat_vlib_number_by_name\<close> belong to libraries that are not part of the source
  (the spec's opaque tokenizing primitives). A call through \<^verbatim>\<open>unformat\<close> or
  \<^verbatim>\<open>unformat_user\<close> that fails consumes no input: the caller sees the input as it was
  and may try another grammar.
\<close>

definition unformat_user :: "(string \<Rightarrow> 'a unformat_result) \<Rightarrow> string \<Rightarrow> 'a unformat_result" where
  "unformat_user f input = (case f input of No_match _ \<Rightarrow> No_match input | r \<Rightarrow> r)"

text \<open>
  Modelled from the spec: the numeric literals. \<^verbatim>\<open>%x\<close> reads hexadecimal digits,
  \<^verbatim>\<open>%d\<close> reads decimal digits after an optional minus sign; at least one digit is
  required. Both are given the address of the C \<^verbatim>\<open>int p\<close>, so what is stored is the
  value reduced to the 32 bits of an \<^verbatim>\<open>int\<close>. The input is taken to begin at the
  token: white space before it is not modelled.
\<close>

definition dec_value :: "char \<Rightarrow> nat option" where
  "dec_value c = (let n = (of_char c :: nat) in if 48 \<le> n \<and> n \<le> 57 then Some (n - 48) else None)"

definition hex_value :: "char \<Rightarrow> nat option" where
  "hex_value c =
     (let n = (of_char c :: nat)
      in if 48 \<le> n \<and> n \<le> 57 then Some (n - 48)
         else if 97 \<le> n \<and> n \<le> 102 then Some (n - 87)
         else if 65 \<le> n \<and> n \<le> 70 then Some (n - 55)
         else None)"

text \<open>The digits at the head of the input: their value, their number, the input left.\<close>

fun scan_digits :: "nat \<Rightarrow> (char \<Rightarrow> nat option) \<Rightarrow> nat \<Rightarrow> nat \<Rightarrow> string \<Rightarrow> nat \<times> nat \<times> string" where
  "scan_digits base dv v n [] = (v, n, [])"
| "scan_digits base dv v n (c # cs) =
     (case dv c of
        None \<Rightarrow> (v, n, c # cs)
      | Some d \<Rightarrow> scan_digits base dv (base * v + d) (Suc n) cs)"

definition unformat_x :: "string \<Rightarrow> u32 unformat_result" where
  "unformat_x input =
     (case scan_digits 16 hex_value 0 0 input of
        (v, n, rest) \<Rightarrow> if n = 0 then No_match input else Match (word_of_nat v) rest)"

definition unformat_d :: "string \<Rightarrow> u32 unformat_result" where
  "unformat_d input =
     (case input of
        c # cs \<Rightarrow>
          (if c = CHR ''-''
           then (case scan_digits 10 dec_value 0 0 cs of
                   (v, n, rest) \<Rightarrow> if n = 0 then No_match input else Match (- word_of_nat v) rest)
           else (case scan_digits 10 dec_value 0 0 input of
                   (v, n, rest) \<Rightarrow> if n = 0 then No_match input else Match (word_of_nat v) rest))
      | [] \<Rightarrow> No_match input)"

text \<open>\<^verbatim>\<open>unformat (input, "0x%x", &p)\<close>: the two characters \<^verbatim>\<open>0x\<close>, then \<^verbatim>\<open>%x\<close>.\<close>

definition unformat_0x_x :: "string \<Rightarrow> u32 unformat_result" where
  "unformat_0x_x input =
     (case input of
        c0 # c1 # cs \<Rightarrow>
          (if c0 = CHR ''0'' \<and> c1 = CHR ''x''
           then (case unformat_x cs of No_match _ \<Rightarrow> No_match input | r \<Rightarrow> r)
           else No_match input)
      | _ \<Rightarrow> No_match input)"

text \<open>
  Modelled from the spec: a name token, resolved by exact match in a hash table of names.
  A token is a non-empty run of letters, digits and underscores.
\<close>

definition is_token_char :: "char \<Rightarrow> bool" where
  "is_token_char c =
     (let n = (of_char c :: nat)
      in (48 \<le> n \<and> n \<le> 57) \<or> (65 \<le> n \<and> n \<le> 90) \<or> (97 \<le> n \<and> n \<le> 122) \<or> n = 95)"

definition unformat_vlib_number_by_name :: "(string \<rightharpoonup> nat) \<Rightarrow> string \<Rightarrow> nat unformat_result" where
  "unformat_vlib_number_by_name hash input =
     (let token = takeWhile is_token_char input
      in if token = [] then No_match input
         else (case hash token of
                 None \<Rightarrow> No_match (dropWhile is_token_char input)
               | Some i \<Rightarrow> Match i (dropWhile is_token_char input)))"

subsection \<open>Parsing a protocol and a header\<close>

text \<open>
  \<^verbatim>\<open>unformat_ppp_protocol_host_byte_order\<close>. \<^verbatim>\<open>p\<close> is a C \<^verbatim>\<open>int\<close>: the
  comparison with \<^verbatim>\<open>1 << 16\<close> is signed, and the store into the \<^verbatim>\<open>u16\<close> result
  keeps the low 16 bits.
\<close>

definition unformat_ppp_protocol_host_byte_order :: "ppp_main_t \<Rightarrow> string \<Rightarrow> u16 unformat_result" where
  "unformat_ppp_protocol_host_byte_order pm input =
     (case (case unformat_0x_x input of No_match input0 \<Rightarrow> unformat_d input0 | r \<Rightarrow> r) of
        Match p input1 \<Rightarrow>
          if sint p \<ge> 2 ^ 16 then No_match input1 else Match (ucast p) input1
      | Assertion_failed \<Rightarrow> Assertion_failed
      | No_match input1 \<Rightarrow>
          (case unformat_user (unformat_vlib_number_by_name (protocol_info_by_name pm)) input1 of
             Match i input2 \<Rightarrow>
               (case vec_elt_at_index (protocol_infos pm) i of
                  None \<Rightarrow> Assertion_failed
                | Some pi \<Rightarrow> Match (ucast (protocol pi)) input2)
           | Assertion_failed \<Rightarrow> Assertion_failed
           | No_match input2 \<Rightarrow> No_match input2))"

definition unformat_ppp_protocol_net_byte_order ::
  "byte_order \<Rightarrow> ppp_main_t \<Rightarrow> string \<Rightarrow> u16 unformat_result" where
  "unformat_ppp_protocol_net_byte_order e pm input =
     (case unformat_user (unformat_ppp_protocol_host_byte_order pm) input of
        Match r input1 \<Rightarrow> Match (clib_host_to_net_u16 e r) input1
      | No_match input1 \<Rightarrow> No_match input1
      | Assertion_failed \<Rightarrow> Assertion_failed)"

text \<open>\<^verbatim>\<open>vec_add2\<close> followed by \<^verbatim>\<open>clib_memcpy\<close>: the bytes are appended to the vector.\<close>

definition vec_add :: "u8 list \<Rightarrow> u8 list \<Rightarrow> u8 list" where
  "vec_add v bytes = v @ bytes"

text \<open>
  \<^verbatim>\<open>unformat_ppp_header\<close>: the outcome of the parse and the caller's vector
  \<^verbatim>\<open>*result\<close> after the call. The local header \<^verbatim>\<open>_h\<close> is four bytes of the stack,
  each of them stored to before the copy.
\<close>

definition unformat_ppp_header ::
  "byte_order \<Rightarrow> ppp_main_t \<Rightarrow> string \<Rightarrow> u8 list \<Rightarrow> unit unformat_result \<times> u8 list" where
  "unformat_ppp_header e pm input result =
     (case unformat_user (unformat_ppp_protocol_host_byte_order pm) input of
        No_match input1 \<Rightarrow> (No_match input1, result)
      | Assertion_failed \<Rightarrow> (Assertion_failed, result)
      | Match p input1 \<Rightarrow>
          (let h = replicate sizeof_ppp_header_t 0;
               h = set_address h 0xff;
               h = set_control h 0x03;
               h = set_protocol e h (clib_host_to_net_u16 e p)
           in (Match () input1, vec_add result h)))"

subsection \<open>Building the rewrite\<close>

text \<open>
  Modelled from the spec: \<^verbatim>\<open>vnet_link_t\<close> is an enum of a header file that is not part
  of the source. \<^verbatim>\<open>ppp.c\<close> names three of its members, the spec's closed set of
  outgoing families; every other member is \<open>VNET_LINK_other\<close> with its number.
\<close>

datatype vnet_link_t = VNET_LINK_IP4 | VNET_LINK_IP6 | VNET_LINK_MPLS | VNET_LINK_other nat

text \<open>
  The protocol numbers \<^verbatim>\<open>PPP_PROTOCOL_ip4\<close>, \<^verbatim>\<open>PPP_PROTOCOL_ip6\<close> and
  \<^verbatim>\<open>PPP_PROTOCOL_mpls_unicast\<close> are enumerators of a header file that is not part of
  the source: they are parameters.
\<close>

record ppp_protocol_numbers =
  PPP_PROTOCOL_ip4 :: ppp_protocol_t
  PPP_PROTOCOL_ip6 :: ppp_protocol_t
  PPP_PROTOCOL_mpls_unicast :: ppp_protocol_t

text \<open>
  \<^verbatim>\<open>ppp_build_rewrite\<close>: \<open>None\<close> is the \<^verbatim>\<open>NULL\<close> of the default case;
  \<^verbatim>\<open>vec_validate\<close> makes a vector of four zero bytes, which the three stores fill.
\<close>

definition ppp_build_rewrite ::
  "byte_order \<Rightarrow> ppp_protocol_numbers \<Rightarrow> 'vnm \<Rightarrow> u32 \<Rightarrow> vnet_link_t \<Rightarrow> 'addr \<Rightarrow> u8 list option" where
  "ppp_build_rewrite e ids vnm sw_if_index link_type dst_hw_address =
     (case (case link_type of
              VNET_LINK_IP4 \<Rightarrow> Some (PPP_PROTOCOL_ip4 ids)
            | VNET_LINK_IP6 \<Rightarrow> Some (PPP_PROTOCOL_ip6 ids)
            | VNET_LINK_MPLS \<Rightarrow> Some (PPP_PROTOCOL_mpls_unicast ids)
            | VNET_LINK_other _ \<Rightarrow> None) of
        None \<Rightarrow> None
      | Some protocol' \<Rightarrow>
          (let rewrite = replicate sizeof_ppp_header_t 0;
               h = set_address rewrite 0xff;
               h = set_control h 0x03;
               h = set_protocol e h (clib_host_to_net_u16 e (ucast protocol'))
           in Some h))"

subsection \<open>Sample inputs\<close>

text \<open>
  Modelled from the spec: the start of the built-in table. The spec gives the number of
  IPv4, \<open>0x0021\<close>, and the names are the ones \<^verbatim>\<open>ppp.c\<close> uses; the numbers of IPv6 and
  of MPLS unicast here are the ones assigned to them for PPP.
\<close>

definition sample_numbers :: ppp_protocol_numbers where
  "sample_numbers =
     \<lparr>PPP_PROTOCOL_ip4 = 0x0021, PPP_PROTOCOL_ip6 = 0x0057, PPP_PROTOCOL_mpls_unicast = 0x0281\<rparr>"

definition sample_table :: "(ppp_protocol_t \<times> string) list" where
  "sample_table = [(0x0021, ''ip4''), (0x0057, ''ip6''), (0x0281, ''mpls_unicast'')]"

definition sample_vlib_main :: vlib_main_t where
  "sample_vlib_main =
     \<lparr>nodes = [\<lparr>format_buffer = Some (\<lambda>s h off n. s @ ''IP4: payload'')\<rparr>,
               \<lparr>format_buffer = None\<rparr>]\<rparr>"

definition sample_main :: ppp_main_t where
  "sample_main = add_protocols (ppp_main_cleared sample_vlib_main) sample_table"

text \<open>
  The same registry after the handlers were registered as \<^verbatim>\<open>ppp_init\<close> does for IPv4
  and IPv6: here node 0, which has a formatter, handles IPv4, and node 1, which has none,
  handles IPv6.
\<close>

definition sample_main_registered :: ppp_main_t where
  "sample_main_registered =
     (case ppp_register_input_protocol sample_main 0x0021 0 of
        None \<Rightarrow> sample_main
      | Some pm \<Rightarrow>
          (case ppp_register_input_protocol pm 0x0057 1 of
             None \<Rightarrow> pm
           | Some pm' \<Rightarrow> pm'))"

text \<open>A registry built from a table that names the number \<open>0x0021\<close> twice.\<close>

definition duplicate_main :: ppp_main_t where
  "duplicate_main =
     add_protocols (ppp_main_cleared sample_vlib_main) [(0x0021, ''ip4''), (0x0021, ''ipv4'')]"

subsection \<open>Notions used in the statements\<close>

text \<open>The 16-bit value whose network-order bytes are \<open>b0\<close>, \<open>b1\<close>.\<close>

definition net_u16 :: "u8 \<Rightarrow> u8 \<Rightarrow> u16" where
  "net_u16 b0 b1 = push_bit 8 (ucast b0) OR ucast b1"

text \<open>
  The rendering of a header as the spec words it: the label \<^verbatim>\<open>PPP\<close>, the registered
  name of the protocol or else its number as \<^verbatim>\<open>0xNNNN\<close>, then the address if it is not
  \<open>0xFF\<close> and the control if it is not \<open>0x03\<close>. \<open>p\<close> is the protocol in host order.
\<close>

definition spec_header_text :: "ppp_main_t \<Rightarrow> u16 \<Rightarrow> u8 \<Rightarrow> u8 \<Rightarrow> string" where
  "spec_header_text pm p a c =
     ''PPP '' @
     (case ppp_get_protocol_info pm (ucast p) of
        Some pi \<Rightarrow> name pi
      | None \<Rightarrow> ''0x'' @ format_x 4 (unat p)) @
     (if a \<noteq> 0xff then '', address 0x'' @ format_x 2 (unat a) else []) @
     (if c \<noteq> 0x03 then '', control 0x'' @ format_x 2 (unat c) else [])"

text \<open>
  The protocol has a registered handler whose node exposes a formatter of the trailing
  payload.
\<close>

definition exposes_formatter :: "ppp_main_t \<Rightarrow> ppp_protocol_t \<Rightarrow> bool" where
  "exposes_formatter pm p =
     (case ppp_get_protocol_info pm p of
        None \<Rightarrow> False
      | Some pi \<Rightarrow>
          (case vlib_get_node (vlib_main pm) (node_index pi) of
             None \<Rightarrow> False
           | Some node \<Rightarrow> format_buffer node \<noteq> None))"

text \<open>The record \<^verbatim>\<open>add_protocol\<close> makes of a row: the handler is unset.\<close>

definition new_info :: "ppp_protocol_t \<times> string \<Rightarrow> ppp_protocol_info_t" where
  "new_info row = \<lparr>name = snd row, protocol = fst row, node_index = NOT 0, next_index = NOT 0\<rparr>"

text \<open>
  Consistency of the two indices with the records: an index entry points to a record with
  that key, and every record is the one both of its keys point to.
\<close>

definition registry_consistent :: "ppp_main_t \<Rightarrow> bool" where
  "registry_consistent pm \<longleftrightarrow>
     (\<forall>p i. protocol_info_by_protocol pm p = Some i \<longrightarrow>
        i < length (protocol_infos pm) \<and> protocol (protocol_infos pm ! i) = p) \<and>
     (\<forall>n i. protocol_info_by_name pm n = Some i \<longrightarrow>
        i < length (protocol_infos pm) \<and> name (protocol_infos pm ! i) = n) \<and>
     (\<forall>i < length (protocol_infos pm).
        protocol_info_by_protocol pm (protocol (protocol_infos pm ! i)) = Some i \<and>
        protocol_info_by_name pm (name (protocol_infos pm ! i)) = Some i)"

text \<open>
  The decimal digits of a number, most significant first, as a numeric literal in decimal
  form writes it.
\<close>

definition dec_digit :: "nat \<Rightarrow> char" where
  "dec_digit d = ''0123456789'' ! d"

function dec_digits :: "nat \<Rightarrow> string" where
  "dec_digits n = (if n < 10 then [dec_digit n] else dec_digits (n div 10) @ [dec_digit (n mod 10)])"
  by pat_completeness auto
termination
  by (relation "measure id") auto

declare dec_digits.simps [simp del]

text \<open>
  A name that the parser reads as a name: a token that does not begin with a decimal
  digit, so that neither numeric form takes it.
\<close>

definition is_protocol_name :: "string \<Rightarrow> bool" where
  "is_protocol_name n =
     (case n of [] \<Rightarrow> False | c # cs \<Rightarrow> dec_value c = None \<and> list_all is_token_char n)"

section \<open>Auxiliary facts\<close>

subsection \<open>Byte order\<close>

lemma store_host_to_net: "store_u16 e (clib_host_to_net_u16 e p) = [hi_byte p, lo_byte p]"
proof (cases e)
  case Little_endian
  have "lo_byte (clib_byte_swap_u16 p) = hi_byte p"
    unfolding lo_byte_def hi_byte_def clib_byte_swap_u16_def
    by (rule bit_word_eqI) (auto simp add: bit_simps)
  moreover have "hi_byte (clib_byte_swap_u16 p) = lo_byte p"
    unfolding lo_byte_def hi_byte_def clib_byte_swap_u16_def
    by (rule bit_word_eqI) (auto simp add: bit_simps)
  ultimately show ?thesis
    using Little_endian by (simp add: store_u16_def clib_host_to_net_u16_def)
next
  case Big_endian
  then show ?thesis by (simp add: store_u16_def clib_host_to_net_u16_def)
qed

lemma net_to_host_load: "clib_net_to_host_u16 e (load_u16 e b0 b1) = net_u16 b0 b1"
proof (cases e)
  case Little_endian
  have "clib_byte_swap_u16 (push_bit 8 (ucast b1) OR ucast b0) = net_u16 b0 b1"
    unfolding clib_byte_swap_u16_def net_u16_def
    by (rule bit_word_eqI) (auto simp add: bit_simps dest: bit_imp_le_length)
  then show ?thesis
    using Little_endian by (simp add: load_u16_def clib_net_to_host_u16_def)
next
  case Big_endian
  then show ?thesis by (simp add: load_u16_def clib_net_to_host_u16_def net_u16_def)
qed

lemma net_u16_bytes: "net_u16 (hi_byte p) (lo_byte p) = p"
  unfolding net_u16_def hi_byte_def lo_byte_def
  by (rule bit_word_eqI) (auto simp add: bit_simps)

lemma header_bytes:
  "set_protocol e (set_control (set_address (replicate sizeof_ppp_header_t 0) a) c)
     (clib_host_to_net_u16 e p) = [a, c, hi_byte p, lo_byte p]"
  by (simp add: set_protocol_def set_control_def set_address_def sizeof_ppp_header_t_def
      offsetof_protocol_def offsetof_control_def offsetof_address_def store_host_to_net
      numeral_Bit0 numeral_Bit1 replicate_Suc)

lemma unat_ucast_u16: "unat (ucast (p :: u16) :: u32) = unat p"
proof -
  have "unat p < 2 ^ 16" using unsigned_less[of p, where 'a = nat] by simp
  then have "unat p < 2 ^ 32" by simp
  then show ?thesis by (simp add: unsigned_ucast_eq take_bit_nat_eq_self)
qed

lemma ucast_ucast_small:
  assumes "(p :: u32) < 0x10000"
  shows "ucast (ucast p :: u16) = p"
proof -
  have small: "unat p < 2 ^ 16" using assms by (simp add: word_less_nat_alt)
  have a: "unat (ucast p :: u16) = unat p"
    by (subst unsigned_ucast_eq) (use small in \<open>simp add: take_bit_nat_eq_self\<close>)
  have "unat (ucast (ucast p :: u16) :: u32) = unat (ucast p :: u16)"
    by (subst unsigned_ucast_eq) (use small a in \<open>simp add: take_bit_nat_eq_self\<close>)
  with a show ?thesis by (simp add: word_unat_eq_iff)
qed

lemma ucast_minus_1_u16: "(ucast (- 1 :: u32) :: u16) = 0xffff"
proof -
  have "(- 1 :: u32) = 0xffffffff" by simp
  then show ?thesis by (simp only: ucast_bintr) simp
qed

lemma sint_small: "(p :: u32) < 0x10000 \<Longrightarrow> sint p < 2 ^ 16"
proof -
  assume "p < 0x10000"
  then have u: "uint p < 65536" by (simp add: word_less_def)
  have lo: "- (2 ^ 31) \<le> uint p" by (rule order_trans[of _ 0]) simp_all
  have hi: "uint p < 2 ^ 31" using u by simp
  have "sint p = signed_take_bit 31 (uint p)" by (simp add: sint_uint)
  also have "\<dots> = uint p"
    by (rule signed_take_bit_int_eq_self[OF lo hi])
  finally show ?thesis using u by simp
qed

subsection \<open>Hexadecimal digits\<close>

lemma length_hex_digits: "0 < k \<Longrightarrow> n < 16 ^ k \<Longrightarrow> length (hex_digits n) \<le> k"
proof (induction n arbitrary: k rule: hex_digits.induct)
  case (1 n)
  show ?case
  proof (cases "n < 16")
    case True
    then show ?thesis using "1.prems" by (simp add: hex_digits.simps)
  next
    case False
    then obtain j where k: "k = Suc j" "0 < j"
      using "1.prems" by (cases k; cases "k - 1") auto
    have "n div 16 < 16 ^ j" using "1.prems" k by (simp add: less_mult_imp_div_less)
    then have "length (hex_digits (n div 16)) \<le> j" using "1.IH" False k by simp
    then show ?thesis using False k by (simp add: hex_digits.simps[of n])
  qed
qed

lemma hex_digits_nonempty: "hex_digits n \<noteq> []"
  by (subst hex_digits.simps) simp

lemma length_format_x: "length (format_x w n) = max w (length (hex_digits n))"
  by (simp add: format_x_def)

lemma length_format_x_u16: "length (format_x 4 (unat (p :: u16))) = 4"
proof -
  have "unat p < 16 ^ 4" using unsigned_less[of p, where 'a = nat] by simp
  then have "length (hex_digits (unat p)) \<le> 4" by (rule length_hex_digits[rotated]) simp
  then show ?thesis by (simp add: length_format_x)
qed

lemma hex_value_hex_digit: "d < 16 \<Longrightarrow> hex_value (hex_digit d) = Some d"
proof -
  assume "d < 16"
  moreover have "list_all (\<lambda>d. hex_value (hex_digit d) = Some d) [0..<16]"
    by (simp add: upt_rec hex_digit_def hex_value_def)
  ultimately show ?thesis by (simp add: list_all_iff)
qed

lemma scan_hex_digits:
  "scan_digits 16 hex_value v k (hex_digits n @ rest) =
     scan_digits 16 hex_value (v * 16 ^ length (hex_digits n) + n) (k + length (hex_digits n)) rest"
proof (induction n arbitrary: v k rest rule: hex_digits.induct)
  case (1 n)
  show ?case
  proof (cases "n < 16")
    case True
    then show ?thesis by (simp add: hex_digits.simps[of n] hex_value_hex_digit mult.commute)
  next
    case False
    have d: "hex_value (hex_digit (n mod 16)) = Some (n mod 16)"
      by (rule hex_value_hex_digit) simp
    have "scan_digits 16 hex_value v k (hex_digits n @ rest) =
          scan_digits 16 hex_value v k (hex_digits (n div 16) @ (hex_digit (n mod 16) # rest))"
      using False by (simp add: hex_digits.simps[of n])
    also have "\<dots> = scan_digits 16 hex_value (v * 16 ^ length (hex_digits (n div 16)) + n div 16)
                        (k + length (hex_digits (n div 16))) (hex_digit (n mod 16) # rest)"
      using "1.IH"[OF False] by simp
    also have "\<dots> = scan_digits 16 hex_value
                        (16 * (v * 16 ^ length (hex_digits (n div 16)) + n div 16) + n mod 16)
                        (Suc (k + length (hex_digits (n div 16)))) rest"
      by (simp add: d)
    also have "16 * (v * 16 ^ length (hex_digits (n div 16)) + n div 16) + n mod 16
               = v * 16 ^ length (hex_digits n) + n"
      using False by (simp add: hex_digits.simps[of n] algebra_simps)
    also have "Suc (k + length (hex_digits (n div 16))) = k + length (hex_digits n)"
      using False by (simp add: hex_digits.simps[of n])
    finally show ?thesis .
  qed
qed

lemma scan_zeros:
  "scan_digits 16 hex_value 0 k (replicate m (CHR ''0'') @ rest) =
     scan_digits 16 hex_value 0 (k + m) rest"
  by (induction m arbitrary: k) (simp_all add: hex_value_def)

lemma scan_format_x:
  "scan_digits 16 hex_value 0 0 (format_x w n) = (n, length (format_x w n), [])"
proof -
  have "scan_digits 16 hex_value 0 0 (format_x w n) =
        scan_digits 16 hex_value 0 (w - length (hex_digits n)) (hex_digits n @ [])"
    using scan_zeros[of 0 "w - length (hex_digits n)" "hex_digits n"] by (simp add: format_x_def)
  also have "\<dots> = (n, (w - length (hex_digits n)) + length (hex_digits n), [])"
    by (subst scan_hex_digits) simp
  finally show ?thesis by (simp add: format_x_def)
qed

lemma unformat_x_format_x: "unformat_x (format_x w n) = Match (word_of_nat n) []"
proof -
  have "length (format_x w n) \<noteq> 0"
    using hex_digits_nonempty[of n] by (simp add: format_x_def)
  then show ?thesis by (simp add: unformat_x_def scan_format_x)
qed

lemma unformat_0x_x_format_x:
  "unformat_0x_x (CHR ''0'' # CHR ''x'' # format_x w n) = Match (word_of_nat n) []"
  by (simp add: unformat_0x_x_def unformat_x_format_x)

subsection \<open>The formatter\<close>

lemma format_truncated:
  assumes "max_header_bytes \<noteq> 0" "max_header_bytes < 4"
  shows "format_ppp_header_with_length e pm s h max_header_bytes =
           Inr (s @ ''ppp header truncated'', [2, 3])"
  using assms
  by (simp add: format_ppp_header_with_length_def read_u16_def sizeof_ppp_header_t_def
      offsetof_protocol_def)

lemma format_untruncated:
  assumes "max_header_bytes = 0 \<or> 4 \<le> max_header_bytes"
  shows "format_ppp_header_with_length e pm s h max_header_bytes =
           Inr (s @ spec_header_text pm (net_u16 (h 2) (h 3)) (h 0) (h 1),
                [2, 3, 0] @ (if h 0 \<noteq> 0xff then [0] else []) @ [1] @
                (if h 1 \<noteq> 0x03 then [1] else []))"
proof -
  have guard: "(max_header_bytes \<noteq> 0 \<and> max_header_bytes < 4) = False"
    using assms by (auto simp: not_less)
  show ?thesis
    by (simp add: format_ppp_header_with_length_def read_u16_def read_u8_def sizeof_ppp_header_t_def
      offsetof_protocol_def offsetof_address_def offsetof_control_def net_to_host_load guard
      spec_header_text_def format_ppp_protocol_def Let_def unat_ucast_u16 split: option.split)
qed

lemma label_not_truncation: "spec_header_text pm p a c \<noteq> ''ppp header truncated''"
  by (simp add: spec_header_text_def)

subsection \<open>The registry\<close>

lemma add_protocol_infos:
  "protocol_infos (add_protocol pm p n) = protocol_infos pm @ [new_info (p, n)]"
  by (simp add: add_protocol_def new_info_def Let_def)

lemma add_protocol_by_protocol:
  "protocol_info_by_protocol (add_protocol pm p n) =
     (protocol_info_by_protocol pm)(p \<mapsto> length (protocol_infos pm))"
  by (simp add: add_protocol_def Let_def)

lemma add_protocol_by_name:
  "protocol_info_by_name (add_protocol pm p n) =
     (protocol_info_by_name pm)(n \<mapsto> length (protocol_infos pm))"
  by (simp add: add_protocol_def Let_def)

lemma consistent_cleared: "registry_consistent (ppp_main_cleared vm)"
  by (simp add: registry_consistent_def ppp_main_cleared_def)

lemma consistent_add_protocol:
  assumes inv: "registry_consistent pm"
    and fresh_p: "protocol_info_by_protocol pm p = None"
    and fresh_n: "protocol_info_by_name pm n = None"
  shows "registry_consistent (add_protocol pm p n)"
proof -
  let ?infos = "protocol_infos pm"
  have a: "\<And>q i. protocol_info_by_protocol pm q = Some i \<Longrightarrow>
              i < length ?infos \<and> protocol (?infos ! i) = q"
    and b: "\<And>m i. protocol_info_by_name pm m = Some i \<Longrightarrow>
              i < length ?infos \<and> name (?infos ! i) = m"
    and c: "\<And>i. i < length ?infos \<Longrightarrow>
              protocol_info_by_protocol pm (protocol (?infos ! i)) = Some i \<and>
              protocol_info_by_name pm (name (?infos ! i)) = Some i"
    using inv unfolding registry_consistent_def by blast+
  have old_p: "\<And>i. i < length ?infos \<Longrightarrow> protocol (?infos ! i) \<noteq> p"
    using c fresh_p by fastforce
  have old_n: "\<And>i. i < length ?infos \<Longrightarrow> name (?infos ! i) \<noteq> n"
    using c fresh_n by fastforce
  show ?thesis
    unfolding registry_consistent_def add_protocol_infos add_protocol_by_protocol add_protocol_by_name
  proof (intro conjI allI impI)
    fix q i assume "((protocol_info_by_protocol pm)(p \<mapsto> length ?infos)) q = Some i"
    then show "i < length (?infos @ [new_info (p, n)])"
      using a[of q i] by (auto split: if_splits)
  next
    fix q i assume "((protocol_info_by_protocol pm)(p \<mapsto> length ?infos)) q = Some i"
    then show "protocol ((?infos @ [new_info (p, n)]) ! i) = q"
      using a[of q i] by (auto simp: nth_append new_info_def split: if_splits)
  next
    fix m i assume "((protocol_info_by_name pm)(n \<mapsto> length ?infos)) m = Some i"
    then show "i < length (?infos @ [new_info (p, n)])"
      using b[of m i] by (auto split: if_splits)
  next
    fix m i assume "((protocol_info_by_name pm)(n \<mapsto> length ?infos)) m = Some i"
    then show "name ((?infos @ [new_info (p, n)]) ! i) = m"
      using b[of m i] by (auto simp: nth_append new_info_def split: if_splits)
  next
    fix i assume "i < length (?infos @ [new_info (p, n)])"
    then show "((protocol_info_by_protocol pm)(p \<mapsto> length ?infos))
                 (protocol ((?infos @ [new_info (p, n)]) ! i)) = Some i"
      using c[of i] old_p[of i] by (auto simp: nth_append new_info_def less_Suc_eq)
  next
    fix i assume "i < length (?infos @ [new_info (p, n)])"
    then show "((protocol_info_by_name pm)(n \<mapsto> length ?infos))
                 (name ((?infos @ [new_info (p, n)]) ! i)) = Some i"
      using c[of i] old_n[of i] by (auto simp: nth_append new_info_def less_Suc_eq)
  qed
qed

lemma consistent_distinct:
  assumes "registry_consistent pm"
  shows "distinct (map protocol (protocol_infos pm))"
    and "distinct (map name (protocol_infos pm))"
proof -
  have c: "\<And>i. i < length (protocol_infos pm) \<Longrightarrow>
              protocol_info_by_protocol pm (protocol (protocol_infos pm ! i)) = Some i \<and>
              protocol_info_by_name pm (name (protocol_infos pm ! i)) = Some i"
    using assms unfolding registry_consistent_def by blast
  show "distinct (map protocol (protocol_infos pm))"
    unfolding distinct_conv_nth
  proof (intro allI impI)
    fix i j
    assume "i < length (map protocol (protocol_infos pm))"
      and "j < length (map protocol (protocol_infos pm))" and "i \<noteq> j"
    then show "map protocol (protocol_infos pm) ! i \<noteq> map protocol (protocol_infos pm) ! j"
      using c[of i] c[of j] by auto
  qed
  show "distinct (map name (protocol_infos pm))"
    unfolding distinct_conv_nth
  proof (intro allI impI)
    fix i j
    assume "i < length (map name (protocol_infos pm))"
      and "j < length (map name (protocol_infos pm))" and "i \<noteq> j"
    then show "map name (protocol_infos pm) ! i \<noteq> map name (protocol_infos pm) ! j"
      using c[of i] c[of j] by auto
  qed
qed

lemma add_protocols_infos:
  "protocol_infos (add_protocols pm rows) = protocol_infos pm @ map new_info rows"
  by (induction pm rows rule: add_protocols.induct) (simp_all add: add_protocol_infos)

lemma consistent_add_protocols:
  assumes "registry_consistent pm"
    and "distinct (map fst rows)" and "distinct (map snd rows)"
    and "\<forall>row \<in> set rows. protocol_info_by_protocol pm (fst row) = None \<and>
                           protocol_info_by_name pm (snd row) = None"
  shows "registry_consistent (add_protocols pm rows)"
  using assms
proof (induction pm rows rule: add_protocols.induct)
  case (1 pm)
  then show ?case by simp
next
  case (2 pm p n rows)
  have step: "registry_consistent (add_protocol pm p n)"
    using "2.prems" by (intro consistent_add_protocol) auto
  have fresh: "\<forall>row \<in> set rows.
      protocol_info_by_protocol (add_protocol pm p n) (fst row) = None \<and>
      protocol_info_by_name (add_protocol pm p n) (snd row) = None"
    using "2.prems" by (auto simp: add_protocol_by_protocol add_protocol_by_name)
  show ?case
    using "2.IH"[OF step _ _ fresh] "2.prems" by simp
qed

lemma consistent_lookup:
  assumes inv: "registry_consistent pm" and i: "i < length (protocol_infos pm)"
  shows "ppp_get_protocol_info pm (protocol (protocol_infos pm ! i)) = Some (protocol_infos pm ! i)"
    and "lookup_by_name pm (name (protocol_infos pm ! i)) = Some (protocol_infos pm ! i)"
    and "protocol_info_by_name pm (name (protocol_infos pm ! i)) = Some i"
  using inv i
  by (simp_all add: registry_consistent_def ppp_get_protocol_info_def lookup_by_name_def
      vec_elt_at_index_def)

lemma built_registry:
  assumes "distinct (map fst rows)" and "distinct (map snd rows)"
  shows "registry_consistent (add_protocols (ppp_main_cleared vm) rows)"
  by (rule consistent_add_protocols[OF consistent_cleared assms]) (simp add: ppp_main_cleared_def)

lemma built_lookup:
  fixes vm :: vlib_main_t
  assumes d: "distinct (map fst rows)" "distinct (map snd rows)" and row: "(p, n) \<in> set rows"
  defines "pm \<equiv> add_protocols (ppp_main_cleared vm) rows"
  shows "ppp_get_protocol_info pm p = Some (new_info (p, n))"
    and "lookup_by_name pm n = Some (new_info (p, n))"
    and "\<exists>i. protocol_info_by_name pm n = Some i \<and>
             vec_elt_at_index (protocol_infos pm) i = Some (new_info (p, n))"
proof -
  have infos: "protocol_infos pm = map new_info rows"
    by (simp add: pm_def add_protocols_infos ppp_main_cleared_def)
  obtain i where i: "i < length rows" "rows ! i = (p, n)"
    using row by (auto simp: in_set_conv_nth)
  then have at: "i < length (protocol_infos pm)" "protocol_infos pm ! i = new_info (p, n)"
    by (simp_all add: infos)
  have inv: "registry_consistent pm"
    unfolding pm_def by (rule built_registry[OF d])
  show "ppp_get_protocol_info pm p = Some (new_info (p, n))"
    using consistent_lookup(1)[OF inv at(1)] at(2) by (simp add: new_info_def)
  show "lookup_by_name pm n = Some (new_info (p, n))"
    using consistent_lookup(2)[OF inv at(1)] at(2) by (simp add: new_info_def)
  show "\<exists>i. protocol_info_by_name pm n = Some i \<and>
            vec_elt_at_index (protocol_infos pm) i = Some (new_info (p, n))"
    using consistent_lookup(3)[OF inv at(1)] at by (auto simp: new_info_def vec_elt_at_index_def)
qed

subsection \<open>The parser\<close>

lemma unformat_user_No_match: "unformat_user f input = No_match rest \<Longrightarrow> rest = input"
  by (auto simp: unformat_user_def split: unformat_result.splits)

lemma unformat_user_Match: "unformat_user f input = Match x rest \<longleftrightarrow> f input = Match x rest"
  by (auto simp: unformat_user_def split: unformat_result.splits)

lemma unformat_ppp_header_cases:
  "unformat_ppp_header e pm input result =
     (case unformat_user (unformat_ppp_protocol_host_byte_order pm) input of
        Match p rest \<Rightarrow> (Match () rest, result @ [0xff, 0x03, hi_byte p, lo_byte p])
      | No_match rest \<Rightarrow> (No_match input, result)
      | Assertion_failed \<Rightarrow> (Assertion_failed, result))"
  by (auto simp: unformat_ppp_header_def header_bytes vec_add_def Let_def
      dest: unformat_user_No_match split: unformat_result.splits)

lemma name_not_numeric:
  assumes "is_protocol_name n"
  shows "unformat_0x_x n = No_match n" and "unformat_d n = No_match n"
proof -
  obtain c cs where n: "n = c # cs" and c: "dec_value c = None" and tok: "is_token_char c"
    using assms by (auto simp: is_protocol_name_def split: list.splits)
  have "dec_value (CHR ''0'') = Some 0" by (simp add: dec_value_def)
  then have c0: "c \<noteq> CHR ''0''" using c by auto
  have "\<not> is_token_char (CHR ''-'')" by (simp add: is_token_char_def)
  then have cm: "c \<noteq> CHR ''-''" using tok by auto
  show "unformat_0x_x n = No_match n"
    using c0 by (cases cs) (simp_all add: unformat_0x_x_def n)
  show "unformat_d n = No_match n"
    using cm c by (simp add: unformat_d_def n)
qed

lemma name_token:
  assumes "is_protocol_name n"
  shows "takeWhile is_token_char n = n" and "dropWhile is_token_char n = []" and "n \<noteq> []"
  using assms by (auto simp: is_protocol_name_def list_all_iff split: list.splits)

lemma unformat_protocol_name:
  assumes nm: "is_protocol_name n"
    and idx: "protocol_info_by_name pm n = Some i"
    and rec: "vec_elt_at_index (protocol_infos pm) i = Some info"
  shows "unformat_ppp_protocol_host_byte_order pm n = Match (ucast (protocol info)) []"
  using idx rec
  by (simp add: unformat_ppp_protocol_host_byte_order_def name_not_numeric[OF nm]
      unformat_user_def unformat_vlib_number_by_name_def name_token[OF nm] Let_def)

lemma unformat_protocol_hex:
  assumes "(p :: u32) < 0x10000"
  shows "unformat_ppp_protocol_host_byte_order pm (''0x'' @ format_x w (unat p)) =
           Match (ucast p) []"
  using sint_small[OF assms]
  by (simp add: unformat_ppp_protocol_host_byte_order_def unformat_0x_x_format_x)

text \<open>
  The numeric branch, whatever the literal: the value stored in \<^verbatim>\<open>p\<close> is accepted when
  it is below \<open>2^16\<close> as a signed number, and its low 16 bits are the result.
\<close>

lemma unformat_protocol_numeric:
  assumes "(case unformat_0x_x input of No_match input0 \<Rightarrow> unformat_d input0 | r \<Rightarrow> r) = Match p rest"
  shows "unformat_ppp_protocol_host_byte_order pm input =
           (if sint p \<ge> 2 ^ 16 then No_match rest else Match (ucast p) rest)"
  using assms by (simp add: unformat_ppp_protocol_host_byte_order_def)

text \<open>A numeric literal that the range check rejects: seen through
  \<^verbatim>\<open>unformat_user\<close>, the parse fails and the input is where it was.\<close>

lemma unformat_protocol_too_large:
  assumes "(case unformat_0x_x input of No_match input0 \<Rightarrow> unformat_d input0 | r \<Rightarrow> r) = Match p rest"
    and "sint p \<ge> 2 ^ 16"
  shows "unformat_user (unformat_ppp_protocol_host_byte_order pm) input = No_match input"
  using assms(2) by (simp add: unformat_user_def unformat_protocol_numeric[OF assms(1)])

subsection \<open>Decimal digits\<close>

lemma dec_value_dec_digit: "d < 10 \<Longrightarrow> dec_value (dec_digit d) = Some d"
proof -
  assume "d < 10"
  moreover have "list_all (\<lambda>d. dec_value (dec_digit d) = Some d) [0..<10]"
    by (simp add: upt_rec dec_digit_def dec_value_def)
  ultimately show ?thesis by (simp add: list_all_iff)
qed

lemma dec_digits_nonempty: "dec_digits n \<noteq> []"
  by (subst dec_digits.simps) simp

lemma dec_digits_all_decimal: "list_all (\<lambda>c. dec_value c \<noteq> None) (dec_digits n)"
proof (induction n rule: dec_digits.induct)
  case (1 n)
  show ?case
  proof (cases "n < 10")
    case True
    then show ?thesis by (simp add: dec_digits.simps[of n] dec_value_dec_digit)
  next
    case False
    have "dec_value (dec_digit (n mod 10)) = Some (n mod 10)"
      by (rule dec_value_dec_digit) simp
    then show ?thesis using False "1.IH" by (simp add: dec_digits.simps[of n])
  qed
qed

lemma scan_dec_digits:
  "scan_digits 10 dec_value v k (dec_digits n @ rest) =
     scan_digits 10 dec_value (v * 10 ^ length (dec_digits n) + n) (k + length (dec_digits n)) rest"
proof (induction n arbitrary: v k rest rule: dec_digits.induct)
  case (1 n)
  show ?case
  proof (cases "n < 10")
    case True
    then show ?thesis by (simp add: dec_digits.simps[of n] dec_value_dec_digit mult.commute)
  next
    case False
    have d: "dec_value (dec_digit (n mod 10)) = Some (n mod 10)"
      by (rule dec_value_dec_digit) simp
    have "scan_digits 10 dec_value v k (dec_digits n @ rest) =
          scan_digits 10 dec_value v k (dec_digits (n div 10) @ (dec_digit (n mod 10) # rest))"
      using False by (simp add: dec_digits.simps[of n])
    also have "\<dots> = scan_digits 10 dec_value (v * 10 ^ length (dec_digits (n div 10)) + n div 10)
                        (k + length (dec_digits (n div 10))) (dec_digit (n mod 10) # rest)"
      using "1.IH"[OF False] by simp
    also have "\<dots> = scan_digits 10 dec_value
                        (10 * (v * 10 ^ length (dec_digits (n div 10)) + n div 10) + n mod 10)
                        (Suc (k + length (dec_digits (n div 10)))) rest"
      by (simp add: d)
    also have "10 * (v * 10 ^ length (dec_digits (n div 10)) + n div 10) + n mod 10
               = v * 10 ^ length (dec_digits n) + n"
      using False by (simp add: dec_digits.simps[of n] algebra_simps)
    also have "Suc (k + length (dec_digits (n div 10))) = k + length (dec_digits n)"
      using False by (simp add: dec_digits.simps[of n])
    finally show ?thesis .
  qed
qed

lemma scan_decimal_zeros:
  "scan_digits 10 dec_value 0 k (replicate m (CHR ''0'') @ rest) =
     scan_digits 10 dec_value 0 (k + m) rest"
  by (induction m arbitrary: k) (simp_all add: dec_value_def)

lemma scan_decimal_text:
  "scan_digits 10 dec_value 0 0 (replicate m (CHR ''0'') @ dec_digits n) =
     (n, m + length (dec_digits n), [])"
proof -
  have "scan_digits 10 dec_value 0 0 (replicate m (CHR ''0'') @ dec_digits n) =
        scan_digits 10 dec_value 0 m (dec_digits n @ [])"
    using scan_decimal_zeros[of 0 m "dec_digits n"] by simp
  also have "\<dots> = (n, m + length (dec_digits n), [])"
    by (subst scan_dec_digits) simp
  finally show ?thesis .
qed

text \<open>A text of decimal digits is not taken by the hexadecimal form, which wants \<^verbatim>\<open>0x\<close>.\<close>

lemma decimal_text_not_hex:
  assumes "list_all (\<lambda>c. dec_value c \<noteq> None) input"
  shows "unformat_0x_x input = No_match input"
proof (cases input)
  case Nil
  then show ?thesis by (simp add: unformat_0x_x_def)
next
  case (Cons c0 cs)
  show ?thesis
  proof (cases cs)
    case Nil
    with Cons show ?thesis by (simp add: unformat_0x_x_def)
  next
    case (Cons c1 cs')
    have "dec_value (CHR ''x'') = None" by (simp add: dec_value_def)
    moreover have "dec_value c1 \<noteq> None" using assms \<open>input = c0 # cs\<close> Cons by simp
    ultimately have "c1 \<noteq> CHR ''x''" by auto
    with Cons \<open>input = c0 # cs\<close> show ?thesis by (simp add: unformat_0x_x_def)
  qed
qed

lemma unformat_d_decimal_text:
  "unformat_d (replicate m (CHR ''0'') @ dec_digits n) = Match (word_of_nat n) []"
proof -
  let ?t = "replicate m (CHR ''0'') @ dec_digits n"
  have zero: "dec_value (CHR ''0'') \<noteq> None" by (simp add: dec_value_def)
  have all: "list_all (\<lambda>c. dec_value c \<noteq> None) ?t"
    using dec_digits_all_decimal[of n] zero by (auto simp: list_all_iff)
  obtain c cs where t: "?t = c # cs"
    using dec_digits_nonempty[of n] by (cases ?t) auto
  have "dec_value (CHR ''-'') = None" by (simp add: dec_value_def)
  moreover have "dec_value c \<noteq> None" using all t by simp
  ultimately have c: "c \<noteq> CHR ''-''" by auto
  have len: "m + length (dec_digits n) \<noteq> 0" using dec_digits_nonempty[of n] by simp
  have "unformat_d (c # cs) =
          (case scan_digits 10 dec_value 0 0 (c # cs) of
             (v, k, rest) \<Rightarrow> if k = 0 then No_match (c # cs) else Match (word_of_nat v) rest)"
    using c by (simp add: unformat_d_def)
  then show ?thesis using len by (simp add: t[symmetric] scan_decimal_text)
qed

lemma unformat_protocol_decimal:
  assumes "(p :: u32) < 0x10000"
  shows "unformat_ppp_protocol_host_byte_order pm (replicate m (CHR ''0'') @ dec_digits (unat p)) =
           Match (ucast p) []"
proof -
  have zero: "dec_value (CHR ''0'') \<noteq> None" by (simp add: dec_value_def)
  have all: "list_all (\<lambda>c. dec_value c \<noteq> None) (replicate m (CHR ''0'') @ dec_digits (unat p))"
    using dec_digits_all_decimal[of "unat p"] zero by (auto simp: list_all_iff)
  show ?thesis
    using sint_small[OF assms]
    by (simp add: unformat_ppp_protocol_host_byte_order_def decimal_text_not_hex[OF all]
        unformat_d_decimal_text)
qed

subsection \<open>Registering a handler\<close>

lemma consistent_register:
  assumes inv: "registry_consistent pm"
    and reg: "ppp_register_input_protocol pm p k = Some pm'"
  shows "registry_consistent pm'"
    and "map name (protocol_infos pm') = map name (protocol_infos pm)"
    and "map protocol (protocol_infos pm') = map protocol (protocol_infos pm)"
proof -
  obtain i where i: "protocol_info_by_protocol pm p = Some i" "i < length (protocol_infos pm)"
    and pm': "pm' = pm\<lparr>protocol_infos :=
                 (protocol_infos pm)[i := (protocol_infos pm ! i)\<lparr>node_index := k\<rparr>]\<rparr>"
    using reg
    by (auto simp: ppp_register_input_protocol_def vec_elt_at_index_def
        split: option.splits if_splits)
  have same: "\<And>j. j < length (protocol_infos pm) \<Longrightarrow>
                 name (protocol_infos pm' ! j) = name (protocol_infos pm ! j) \<and>
                 protocol (protocol_infos pm' ! j) = protocol (protocol_infos pm ! j)"
    using i(2) by (simp add: pm' nth_list_update)
  have len: "length (protocol_infos pm') = length (protocol_infos pm)"
    by (simp add: pm')
  have maps: "protocol_info_by_name pm' = protocol_info_by_name pm"
    "protocol_info_by_protocol pm' = protocol_info_by_protocol pm"
    by (simp_all add: pm')
  have a: "\<And>q j. protocol_info_by_protocol pm q = Some j \<Longrightarrow>
              j < length (protocol_infos pm) \<and> protocol (protocol_infos pm ! j) = q"
    and b: "\<And>n j. protocol_info_by_name pm n = Some j \<Longrightarrow>
              j < length (protocol_infos pm) \<and> name (protocol_infos pm ! j) = n"
    and c: "\<And>j. j < length (protocol_infos pm) \<Longrightarrow>
              protocol_info_by_protocol pm (protocol (protocol_infos pm ! j)) = Some j \<and>
              protocol_info_by_name pm (name (protocol_infos pm ! j)) = Some j"
    using inv unfolding registry_consistent_def by blast+
  show "registry_consistent pm'"
    unfolding registry_consistent_def len maps
  proof (intro conjI allI impI)
    fix q j assume "protocol_info_by_protocol pm q = Some j"
    then show "j < length (protocol_infos pm)" using a[of q j] by simp
  next
    fix q j assume "protocol_info_by_protocol pm q = Some j"
    then show "protocol (protocol_infos pm' ! j) = q" using a[of q j] same[of j] by simp
  next
    fix n j assume "protocol_info_by_name pm n = Some j"
    then show "j < length (protocol_infos pm)" using b[of n j] by simp
  next
    fix n j assume "protocol_info_by_name pm n = Some j"
    then show "name (protocol_infos pm' ! j) = n" using b[of n j] same[of j] by simp
  next
    fix j assume "j < length (protocol_infos pm)"
    then show "protocol_info_by_protocol pm (protocol (protocol_infos pm' ! j)) = Some j"
      using c[of j] same[of j] by simp
  next
    fix j assume "j < length (protocol_infos pm)"
    then show "protocol_info_by_name pm (name (protocol_infos pm' ! j)) = Some j"
      using c[of j] same[of j] by simp
  qed
  show "map name (protocol_infos pm') = map name (protocol_infos pm)"
  proof (rule nth_equalityI)
    show "length (map name (protocol_infos pm')) = length (map name (protocol_infos pm))"
      by (simp add: len)
  next
    fix j assume "j < length (map name (protocol_infos pm'))"
    then have "j < length (protocol_infos pm)" by (simp add: len)
    then show "map name (protocol_infos pm') ! j = map name (protocol_infos pm) ! j"
      using same[of j] by (simp add: len)
  qed
  show "map protocol (protocol_infos pm') = map protocol (protocol_infos pm)"
  proof (rule nth_equalityI)
    show "length (map protocol (protocol_infos pm')) = length (map protocol (protocol_infos pm))"
      by (simp add: len)
  next
    fix j assume "j < length (map protocol (protocol_infos pm'))"
    then have "j < length (protocol_infos pm)" by (simp add: len)
    then show "map protocol (protocol_infos pm') ! j = map protocol (protocol_infos pm) ! j"
      using same[of j] by (simp add: len)
  qed
qed

subsection \<open>The label in front of a name\<close>

lemma not_numeric:
  assumes "dec_value c = None" and "c \<noteq> CHR ''-''"
  shows "unformat_0x_x (c # cs) = No_match (c # cs)" and "unformat_d (c # cs) = No_match (c # cs)"
proof -
  have "dec_value (CHR ''0'') = Some 0" by (simp add: dec_value_def)
  then have c0: "c \<noteq> CHR ''0''" using assms(1) by auto
  show "unformat_0x_x (c # cs) = No_match (c # cs)"
    using c0 by (cases cs) (simp_all add: unformat_0x_x_def)
  show "unformat_d (c # cs) = No_match (c # cs)"
    using assms by (simp add: unformat_d_def)
qed

lemma label_token:
  assumes "is_protocol_name n"
  shows "takeWhile is_token_char (''PPP '' @ n) = ''PPP''"
    and "dropWhile is_token_char (''PPP '' @ n) = '' '' @ n"
  by (simp_all add: is_token_char_def)

lemma unformat_protocol_label:
  assumes inv: "registry_consistent pm" and nm: "is_protocol_name n"
  shows "unformat_user (unformat_ppp_protocol_host_byte_order pm) (''PPP '' @ n) =
           (case lookup_by_name pm ''PPP'' of
              None \<Rightarrow> No_match (''PPP '' @ n)
            | Some other \<Rightarrow> Match (ucast (protocol other)) ('' '' @ n))"
proof -
  have num: "unformat_0x_x (''PPP '' @ n) = No_match (''PPP '' @ n)"
    "unformat_d (''PPP '' @ n) = No_match (''PPP '' @ n)"
    using not_numeric[of "CHR ''P''" "''PP '' @ n"] by (simp_all add: dec_value_def)
  have tok: "takeWhile is_token_char (''PPP '' @ n) = ''PPP''"
    "dropWhile is_token_char (''PPP '' @ n) = '' '' @ n"
    using label_token[OF nm] by simp_all
  show ?thesis
  proof (cases "protocol_info_by_name pm ''PPP''")
    case None
    then show ?thesis
      by (simp add: unformat_ppp_protocol_host_byte_order_def num[simplified] unformat_user_def
          unformat_vlib_number_by_name_def tok[simplified] lookup_by_name_def Let_def)
  next
    case (Some i)
    then have "i < length (protocol_infos pm)"
      using inv unfolding registry_consistent_def by blast
    with Some show ?thesis
      by (simp add: unformat_ppp_protocol_host_byte_order_def num[simplified] unformat_user_def
          unformat_vlib_number_by_name_def tok[simplified] lookup_by_name_def vec_elt_at_index_def
          Let_def)
  qed
qed

subsection \<open>The sample registry\<close>

lemmas registry_defs =
  add_protocol_def ppp_main_cleared_def ppp_get_protocol_info_def lookup_by_name_def
  vec_elt_at_index_def new_info_def Let_def

lemmas format_defs =
  format_ppp_header_with_length_def format_ppp_protocol_def read_u16_def read_u8_def
  load_u16_def clib_net_to_host_u16_def clib_byte_swap_u16_def memory_of_def
  sizeof_ppp_header_t_def offsetof_protocol_def offsetof_address_def offsetof_control_def
  format_get_indent_def rendered_def

lemmas unformat_defs =
  unformat_ppp_header_def unformat_ppp_protocol_host_byte_order_def unformat_user_def
  unformat_0x_x_def unformat_x_def unformat_d_def unformat_vlib_number_by_name_def
  hex_value_def dec_value_def is_token_char_def

lemma sample_table_distinct:
  "distinct (map fst sample_table)" "distinct (map snd sample_table)"
  by (simp_all add: sample_table_def)

lemma sample_parse_ip4:
  "unformat_ppp_protocol_host_byte_order sample_main ''ip4'' = Match 0x0021 []"
  by (simp add: sample_main_def sample_table_def registry_defs unformat_defs)

lemma sample_parse_label:
  "unformat_ppp_protocol_host_byte_order sample_main ''PPP ip4'' = No_match ''PPP ip4''"
  by (simp add: sample_main_def sample_table_def registry_defs unformat_defs)

lemma sample_format_ip4:
  "format_ppp_header_with_length Little_endian sample_main []
     (memory_of [0xff, 0x03, 0x00, 0x21]) 4 = Inr (''PPP ip4'', [2, 3, 0, 1])"
  by (simp add: sample_main_def sample_table_def registry_defs format_defs)

lemma sample_registered_infos:
  "protocol_infos sample_main_registered =
     [\<lparr>name = ''ip4'', protocol = 0x0021, node_index = 0, next_index = NOT 0\<rparr>,
      \<lparr>name = ''ip6'', protocol = 0x0057, node_index = 1, next_index = NOT 0\<rparr>,
      \<lparr>name = ''mpls_unicast'', protocol = 0x0281, node_index = NOT 0, next_index = NOT 0\<rparr>]"
  by (simp add: sample_main_registered_def sample_main_def sample_table_def
      ppp_register_input_protocol_def registry_defs)

lemma sample_registered_by_name:
  "protocol_info_by_name sample_main_registered =
     [''ip4'' \<mapsto> 0, ''ip6'' \<mapsto> 1, ''mpls_unicast'' \<mapsto> 2]"
  by (simp add: sample_main_registered_def sample_main_def sample_table_def
      ppp_register_input_protocol_def registry_defs numeral_2_eq_2)

lemma sample_registered_consistent: "registry_consistent sample_main_registered"
proof -
  have built: "registry_consistent sample_main"
    unfolding sample_main_def by (rule built_registry[OF sample_table_distinct])
  obtain pm1 where r1: "ppp_register_input_protocol sample_main 0x0021 0 = Some pm1"
    by (simp add: sample_main_def sample_table_def ppp_register_input_protocol_def registry_defs)
  have c1: "registry_consistent pm1" by (rule consistent_register(1)[OF built r1])
  obtain pm2 where r2: "ppp_register_input_protocol pm1 0x0057 1 = Some pm2"
    using r1
    by (auto simp add: sample_main_def sample_table_def ppp_register_input_protocol_def
        registry_defs)
  have c2: "registry_consistent pm2" by (rule consistent_register(1)[OF c1 r2])
  have "sample_main_registered = pm2"
    by (simp add: sample_main_registered_def r1 r2)
  with c2 show ?thesis by simp
qed

section \<open>The claims\<close>

subsection \<open>Formatting\<close>

text \<open>
  C1. A bound below the header size makes the formatter return the truncation text, but
  not without a load beyond the bound: the initialiser of \<^verbatim>\<open>p\<close> has loaded
  \<^verbatim>\<open>h->protocol\<close>, offsets 2 and 3, before the bound is looked at. Here the bound
  is 1 and one byte is owned.
\<close>

theorem truncated_format_loads_protocol_field:
  "format_ppp_header_with_length Little_endian sample_main [] (memory_of [0xff]) 1 =
     Inr (''ppp header truncated'', [2, 3])"
  by (simp add: format_truncated)

text \<open>
  C2. The block that renders the trailing payload is guarded by the condition of the
  truncation exit, so it is never entered: with the whole header and four more bytes under
  the bound, and a handler for IPv4 whose node exposes a formatter, the text is the header
  alone.
\<close>

theorem trailing_payload_never_rendered:
  "exposes_formatter sample_main_registered 0x0021 \<and>
   format_ppp_header_with_length Little_endian sample_main_registered []
     (memory_of [0xff, 0x03, 0x00, 0x21, 0x45, 0x00, 0x00, 0x14]) 8 =
     Inr (''PPP ip4'', [2, 3, 0, 1])"
  by (simp add: exposes_formatter_def sample_main_registered_def sample_main_def sample_table_def
      sample_vlib_main_def ppp_register_input_protocol_def vlib_get_node_def registry_defs
      format_defs)

text \<open>
  C7. A header that is not truncated (bound 0, or at least the header size) renders as the
  label \<^verbatim>\<open>PPP\<close>, then the registered name of its protocol or else the number as
  \<^verbatim>\<open>0x\<close> and exactly four hexadecimal digits, then the address in hexadecimal only if
  it is not \<open>0xFF\<close>, then the control in hexadecimal only if it is not \<open>0x03\<close>.
\<close>

theorem format_header_text:
  assumes "max_header_bytes = 0 \<or> 4 \<le> max_header_bytes"
  shows "rendered (format_ppp_header_with_length e pm s h max_header_bytes) =
           Some (s @ ''PPP '' @
                 (case ppp_get_protocol_info pm (ucast (net_u16 (h 2) (h 3))) of
                    Some pi \<Rightarrow> name pi
                  | None \<Rightarrow> ''0x'' @ format_x 4 (unat (net_u16 (h 2) (h 3)))) @
                 (if h 0 \<noteq> 0xff then '', address 0x'' @ format_x 2 (unat (h 0)) else []) @
                 (if h 1 \<noteq> 0x03 then '', control 0x'' @ format_x 2 (unat (h 1)) else []))
         \<and> length (format_x 4 (unat (net_u16 (h 2) (h 3)))) = 4"
  by (simp add: format_untruncated[OF assms] rendered_def spec_header_text_def
      length_format_x_u16)

text \<open>
  The header \<open>FF 03 00 21\<close> under the bound 4 renders as \<^verbatim>\<open>PPP ip4\<close>, and with the
  address \<open>7E\<close> as \<^verbatim>\<open>PPP ip4, address 0x7e\<close>.
\<close>

theorem format_header_text_ip4:
  "rendered (format_ppp_header_with_length Little_endian sample_main []
     (memory_of [0xff, 0x03, 0x00, 0x21]) 4) = Some ''PPP ip4'' \<and>
   rendered (format_ppp_header_with_length Big_endian sample_main []
     (memory_of [0x7e, 0x03, 0x00, 0x21]) 4) = Some ''PPP ip4, address 0x7e''"
  using format_header_text[of 4 Little_endian sample_main "[]" "memory_of [0xff, 0x03, 0x00, 0x21]"]
    format_header_text[of 4 Big_endian sample_main "[]" "memory_of [0x7e, 0x03, 0x00, 0x21]"]
  by (simp add: sample_main_def sample_table_def registry_defs memory_of_def net_u16_def
      format_x_def hex_digits.simps hex_digit_def)

text \<open>
  C10. The bound 0 is no bound: the truncation exit is not taken and the whole header is
  rendered; \<^verbatim>\<open>format_ppp_header\<close>, which passes the bound 0, never returns the
  truncation text.
\<close>

theorem format_with_bound_0:
  "format_ppp_header e pm s h = format_ppp_header_with_length e pm s h 0 \<and>
   rendered (format_ppp_header_with_length e pm s h 0) =
     Some (s @ spec_header_text pm (net_u16 (h 2) (h 3)) (h 0) (h 1)) \<and>
   rendered (format_ppp_header e pm s h) \<noteq> Some (s @ ''ppp header truncated'')"
  by (simp add: format_ppp_header_def format_untruncated rendered_def label_not_truncation)

theorem format_with_bound_0_ip4:
  "format_ppp_header Big_endian sample_main [] (memory_of [0xff, 0x03, 0x00, 0x21]) =
     format_ppp_header_with_length Big_endian sample_main []
       (memory_of [0xff, 0x03, 0x00, 0x21]) 0 \<and>
   rendered (format_ppp_header Big_endian sample_main [] (memory_of [0xff, 0x03, 0x00, 0x21])) =
     Some ''PPP ip4''"
  using format_with_bound_0[of Big_endian sample_main "[]" "memory_of [0xff, 0x03, 0x00, 0x21]"]
  by (simp add: sample_main_def sample_table_def registry_defs memory_of_def net_u16_def
      format_ppp_header_def spec_header_text_def)

subsection \<open>Building the rewrite\<close>

text \<open>
  C3. \<^verbatim>\<open>ppp_build_rewrite\<close> is a function of the link type alone (and of the three
  protocol numbers, which are constants of the program): for IPv4, IPv6 and MPLS it returns
  the four bytes \<open>FF\<close>, \<open>03\<close> and the protocol number, most significant byte first, on a
  host of either byte order; for every other link type it returns no vector at all.
\<close>

theorem ppp_build_rewrite_total:
  "ppp_build_rewrite e ids vnm sw_if_index link_type dst_hw_address =
     (case link_type of
        VNET_LINK_IP4 \<Rightarrow>
          Some [0xff, 0x03, hi_byte (ucast (PPP_PROTOCOL_ip4 ids)),
                lo_byte (ucast (PPP_PROTOCOL_ip4 ids))]
      | VNET_LINK_IP6 \<Rightarrow>
          Some [0xff, 0x03, hi_byte (ucast (PPP_PROTOCOL_ip6 ids)),
                lo_byte (ucast (PPP_PROTOCOL_ip6 ids))]
      | VNET_LINK_MPLS \<Rightarrow>
          Some [0xff, 0x03, hi_byte (ucast (PPP_PROTOCOL_mpls_unicast ids)),
                lo_byte (ucast (PPP_PROTOCOL_mpls_unicast ids))]
      | VNET_LINK_other k \<Rightarrow> None) \<and>
   ppp_build_rewrite e' ids vnm' sw_if_index' link_type dst_hw_address' =
     ppp_build_rewrite e ids vnm sw_if_index link_type dst_hw_address"
  by (cases link_type) (simp_all add: ppp_build_rewrite_def header_bytes)

theorem ppp_build_rewrite_samples:
  "ppp_build_rewrite Little_endian sample_numbers () 0 VNET_LINK_IP4 () =
     Some [0xff, 0x03, 0x00, 0x21] \<and>
   ppp_build_rewrite Big_endian sample_numbers () 7 VNET_LINK_MPLS () =
     Some [0xff, 0x03, 0x02, 0x81] \<and>
   ppp_build_rewrite Little_endian sample_numbers () 0 (VNET_LINK_other 4) () = None"
  using ppp_build_rewrite_total[of Little_endian sample_numbers "()" 0 VNET_LINK_IP4 "()"
      Big_endian "()" 0 "()"]
    ppp_build_rewrite_total[of Big_endian sample_numbers "()" 7 VNET_LINK_MPLS "()"
      Little_endian "()" 7 "()"]
    ppp_build_rewrite_total[of Little_endian sample_numbers "()" 0 "VNET_LINK_other 4" "()"
      Big_endian "()" 0 "()"]
  by (simp add: sample_numbers_def hi_byte_def lo_byte_def)

subsection \<open>The registry\<close>

text \<open>
  C8, as stated for every sequence of \<^verbatim>\<open>add_protocol\<close>, fails: after the number
  \<open>0x0021\<close> was added twice, first as \<^verbatim>\<open>ip4\<close>, then as \<^verbatim>\<open>ipv4\<close>, the first record
  is still in the collection, and the lookup of its number returns the second.
\<close>

theorem duplicate_number_breaks_lookup:
  "protocol_infos duplicate_main ! 0 = new_info (0x0021, ''ip4'') \<and>
   ppp_get_protocol_info duplicate_main 0x0021 = Some (new_info (0x0021, ''ipv4''))"
  by (simp add: duplicate_main_def registry_defs)

text \<open>
  C8, amended: after every sequence of \<^verbatim>\<open>add_protocol\<close> from the cleared registry
  whose numbers are pairwise distinct and whose names are pairwise distinct, the records are
  the rows in order with the handler unset, the indices are consistent with the records
  (no index entry without its record, no record without both entries), and for every row
  the lookup by number and the lookup by name both return the record of that row.
\<close>

theorem indices_consistent_after_add_protocols:
  fixes vm :: vlib_main_t
  assumes "distinct (map fst rows)" and "distinct (map snd rows)"
  shows "registry_consistent (add_protocols (ppp_main_cleared vm) rows) \<and>
         protocol_infos (add_protocols (ppp_main_cleared vm) rows) = map new_info rows \<and>
         (\<forall>(p, n) \<in> set rows.
            ppp_get_protocol_info (add_protocols (ppp_main_cleared vm) rows) p =
              Some (new_info (p, n)) \<and>
            lookup_by_name (add_protocols (ppp_main_cleared vm) rows) n =
              Some (new_info (p, n)))"
proof (intro conjI)
  show "registry_consistent (add_protocols (ppp_main_cleared vm) rows)"
    by (rule built_registry[OF assms])
  show "protocol_infos (add_protocols (ppp_main_cleared vm) rows) = map new_info rows"
    by (simp add: add_protocols_infos ppp_main_cleared_def)
  show "\<forall>(p, n) \<in> set rows.
            ppp_get_protocol_info (add_protocols (ppp_main_cleared vm) rows) p =
              Some (new_info (p, n)) \<and>
            lookup_by_name (add_protocols (ppp_main_cleared vm) rows) n =
              Some (new_info (p, n))"
    using built_lookup(1,2)[OF assms] by auto
qed

theorem indices_consistent_sample:
  "distinct (map fst sample_table) \<and> distinct (map snd sample_table) \<and>
   registry_consistent sample_main \<and>
   map_option name (ppp_get_protocol_info sample_main 0x0057) = Some ''ip6'' \<and>
   map_option protocol (lookup_by_name sample_main ''mpls_unicast'') = Some 0x0281"
proof -
  note inst = indices_consistent_after_add_protocols[OF sample_table_distinct,
      of sample_vlib_main, folded sample_main_def]
  have "(0x0057, ''ip6'') \<in> set sample_table" "(0x0281, ''mpls_unicast'') \<in> set sample_table"
    by (simp_all add: sample_table_def)
  with inst have "ppp_get_protocol_info sample_main 0x0057 = Some (new_info (0x0057, ''ip6''))"
    and "lookup_by_name sample_main ''mpls_unicast'' = Some (new_info (0x0281, ''mpls_unicast''))"
    by blast+
  with inst sample_table_distinct show ?thesis by (simp add: new_info_def)
qed

text \<open>
  C9, as stated, fails: \<^verbatim>\<open>add_protocol\<close> has no failure path. The number \<open>0x0021\<close> and
  the name \<^verbatim>\<open>ip4\<close> are both registered, and adding them again appends a fourth record.
\<close>

theorem add_protocol_inserts_duplicate:
  "ppp_get_protocol_info sample_main 0x0021 = Some (new_info (0x0021, ''ip4'')) \<and>
   lookup_by_name sample_main ''ip4'' = Some (new_info (0x0021, ''ip4'')) \<and>
   protocol_infos (add_protocol sample_main 0x0021 ''ip4'') =
     [new_info (0x0021, ''ip4''), new_info (0x0057, ''ip6''),
      new_info (0x0281, ''mpls_unicast''), new_info (0x0021, ''ip4'')]"
  by (simp add: sample_main_def sample_table_def registry_defs)

text \<open>
  C9, amended: \<^verbatim>\<open>add_protocol\<close> never fails; it always appends one record with the
  handler unset and binds both keys to it. When the number and the name are both absent
  from a consistent registry, the registry stays consistent and numbers and names stay
  unique among the records. When the number or the name is already that of a record, the
  record is appended all the same and uniqueness is lost: it is the caller who must
  guarantee fresh keys.
\<close>

theorem add_protocol_always_inserts:
  "protocol_infos (add_protocol pm p n) = protocol_infos pm @ [new_info (p, n)] \<and>
   protocol_info_by_protocol (add_protocol pm p n) p = Some (length (protocol_infos pm)) \<and>
   protocol_info_by_name (add_protocol pm p n) n = Some (length (protocol_infos pm)) \<and>
   (registry_consistent pm \<and> protocol_info_by_protocol pm p = None \<and>
    protocol_info_by_name pm n = None \<longrightarrow>
      registry_consistent (add_protocol pm p n) \<and>
      distinct (map protocol (protocol_infos (add_protocol pm p n))) \<and>
      distinct (map name (protocol_infos (add_protocol pm p n)))) \<and>
   (p \<in> protocol ` set (protocol_infos pm) \<longrightarrow>
      \<not> distinct (map protocol (protocol_infos (add_protocol pm p n)))) \<and>
   (n \<in> name ` set (protocol_infos pm) \<longrightarrow>
      \<not> distinct (map name (protocol_infos (add_protocol pm p n))))"
proof (intro conjI impI)
  show "protocol_infos (add_protocol pm p n) = protocol_infos pm @ [new_info (p, n)]"
    by (rule add_protocol_infos)
  show "protocol_info_by_protocol (add_protocol pm p n) p = Some (length (protocol_infos pm))"
    by (simp add: add_protocol_by_protocol)
  show "protocol_info_by_name (add_protocol pm p n) n = Some (length (protocol_infos pm))"
    by (simp add: add_protocol_by_name)
next
  assume "registry_consistent pm \<and> protocol_info_by_protocol pm p = None \<and>
          protocol_info_by_name pm n = None"
  then have inv: "registry_consistent (add_protocol pm p n)"
    by (intro consistent_add_protocol) auto
  then show "registry_consistent (add_protocol pm p n)" .
  show "distinct (map protocol (protocol_infos (add_protocol pm p n)))"
    by (rule consistent_distinct(1)[OF inv])
  show "distinct (map name (protocol_infos (add_protocol pm p n)))"
    by (rule consistent_distinct(2)[OF inv])
next
  assume "p \<in> protocol ` set (protocol_infos pm)"
  then show "\<not> distinct (map protocol (protocol_infos (add_protocol pm p n)))"
    by (simp add: add_protocol_infos new_info_def)
next
  assume "n \<in> name ` set (protocol_infos pm)"
  then show "\<not> distinct (map name (protocol_infos (add_protocol pm p n)))"
    by (simp add: add_protocol_infos new_info_def)
qed

theorem add_protocol_first_row:
  "registry_consistent (ppp_main_cleared sample_vlib_main) \<and>
   protocol_info_by_protocol (ppp_main_cleared sample_vlib_main) 0x0021 = None \<and>
   protocol_info_by_name (ppp_main_cleared sample_vlib_main) ''ip4'' = None \<and>
   protocol_infos (add_protocol (ppp_main_cleared sample_vlib_main) 0x0021 ''ip4'') =
     [new_info (0x0021, ''ip4'')] \<and>
   registry_consistent (add_protocol (ppp_main_cleared sample_vlib_main) 0x0021 ''ip4'') \<and>
   ''ip4'' \<in> name ` set (protocol_infos sample_main) \<and>
   \<not> distinct (map name (protocol_infos (add_protocol sample_main 0x0099 ''ip4'')))"
proof -
  have pre: "registry_consistent (ppp_main_cleared sample_vlib_main) \<and>
             protocol_info_by_protocol (ppp_main_cleared sample_vlib_main) 0x0021 = None \<and>
             protocol_info_by_name (ppp_main_cleared sample_vlib_main) ''ip4'' = None"
    by (simp add: registry_consistent_def ppp_main_cleared_def)
  have present: "''ip4'' \<in> name ` set (protocol_infos sample_main)"
    by (simp add: sample_main_def sample_table_def registry_defs)
  note first = add_protocol_always_inserts[of "ppp_main_cleared sample_vlib_main" "0x0021" "''ip4''"]
  note again = add_protocol_always_inserts[of sample_main "0x0099" "''ip4''"]
  from first have "protocol_infos (add_protocol (ppp_main_cleared sample_vlib_main) 0x0021 ''ip4'') =
      protocol_infos (ppp_main_cleared sample_vlib_main) @ [new_info (0x0021, ''ip4'')]"
    by blast
  then have infos: "protocol_infos (add_protocol (ppp_main_cleared sample_vlib_main) 0x0021 ''ip4'') =
      [new_info (0x0021, ''ip4'')]"
    by (simp add: ppp_main_cleared_def)
  from first pre
  have inv: "registry_consistent (add_protocol (ppp_main_cleared sample_vlib_main) 0x0021 ''ip4'')"
    by blast
  from again present
  have dup: "\<not> distinct (map name (protocol_infos (add_protocol sample_main 0x0099 ''ip4'')))"
    by blast
  from pre infos inv present dup show ?thesis by blast
qed

subsection \<open>Parsing\<close>

text \<open>
  C4. The range check of the numeric branch compares the C \<^verbatim>\<open>int p\<close> with
  \<open>2^16\<close> as a signed number and has no lower bound. The literal \<^verbatim>\<open>0xffffffff\<close>
  denotes \<open>2^32 - 1\<close>; stored in \<^verbatim>\<open>p\<close> it is \<open>-1\<close>, which passes the check, and the
  parse succeeds with the low 16 bits, \<open>0xffff\<close>. The literal \<^verbatim>\<open>-1\<close> does the same.
\<close>

theorem numeric_literal_beyond_16_bits_accepted:
  "unformat_user (unformat_ppp_protocol_host_byte_order sample_main) ''0xffffffff'' =
     Match 0xffff [] \<and>
   unformat_user (unformat_ppp_protocol_host_byte_order sample_main) ''-1'' =
     Match 0xffff []"
  by (simp add: unformat_defs ucast_minus_1_u16)

text \<open>
  C5. When the parse of a header succeeds, the caller's vector has grown by exactly the four
  bytes \<open>FF\<close>, \<open>03\<close> and the parsed protocol, most significant byte first, and the input
  left is the one the protocol parser left; when the parse does not succeed, the vector is
  as it was.
\<close>

theorem unformat_ppp_header_all_or_nothing:
  "(\<forall>rest. fst (unformat_ppp_header e pm input result) = Match () rest \<longrightarrow>
      (\<exists>p. unformat_ppp_protocol_host_byte_order pm input = Match p rest \<and>
           snd (unformat_ppp_header e pm input result) =
             result @ [0xff, 0x03, hi_byte p, lo_byte p])) \<and>
   ((\<forall>rest. fst (unformat_ppp_header e pm input result) \<noteq> Match () rest) \<longrightarrow>
      snd (unformat_ppp_header e pm input result) = result)"
proof (cases "unformat_user (unformat_ppp_protocol_host_byte_order pm) input")
  case (Match p rest)
  then have "unformat_ppp_protocol_host_byte_order pm input = Match p rest"
    by (simp add: unformat_user_Match)
  with Match show ?thesis by (simp add: unformat_ppp_header_cases)
next
  case (No_match rest)
  then show ?thesis by (simp add: unformat_ppp_header_cases)
next
  case Assertion_failed
  then show ?thesis by (simp add: unformat_ppp_header_cases)
qed

text \<open>The input \<^verbatim>\<open>ip4\<close> appends \<open>FF 03 00 21\<close>; an input that does not parse appends nothing.\<close>

theorem unformat_ppp_header_ip4:
  "fst (unformat_ppp_header Little_endian sample_main ''ip4'' [0xaa]) = Match () [] \<and>
   snd (unformat_ppp_header Little_endian sample_main ''ip4'' [0xaa]) =
     [0xaa, 0xff, 0x03, 0x00, 0x21] \<and>
   unformat_ppp_header Big_endian sample_main ''?'' [0xaa] = (No_match ''?'', [0xaa])"
proof -
  have ok: "fst (unformat_ppp_header Little_endian sample_main ''ip4'' [0xaa]) = Match () []"
    by (simp add: unformat_ppp_header_cases unformat_user_def sample_parse_ip4)
  then obtain p where p: "unformat_ppp_protocol_host_byte_order sample_main ''ip4'' = Match p []"
    and bytes: "snd (unformat_ppp_header Little_endian sample_main ''ip4'' [0xaa]) =
                  [0xaa] @ [0xff, 0x03, hi_byte p, lo_byte p]"
    using unformat_ppp_header_all_or_nothing[of Little_endian sample_main "''ip4''" "[0xaa]"]
    by blast
  from p have "p = 0x0021" by (simp add: sample_parse_ip4)
  with bytes have "snd (unformat_ppp_header Little_endian sample_main ''ip4'' [0xaa]) =
                     [0xaa, 0xff, 0x03, 0x00, 0x21]"
    by (simp add: hi_byte_def lo_byte_def)
  moreover have "unformat_ppp_header Big_endian sample_main ''?'' [0xaa] = (No_match ''?'', [0xaa])"
    by (simp add: sample_main_def sample_table_def registry_defs unformat_defs)
  ultimately show ?thesis using ok by simp
qed

text \<open>
  C6, as stated, fails: the text the formatter makes of a parsed header begins with the
  label \<^verbatim>\<open>PPP\<close>, which the parser takes neither for a number nor for a registered
  name. The input \<^verbatim>\<open>ip4\<close> parses to \<open>FF 03 00 21\<close>, which formats to
  \<^verbatim>\<open>PPP ip4\<close>, which does not parse.
\<close>

theorem formatted_header_does_not_parse:
  "unformat_ppp_header Little_endian sample_main ''ip4'' [] =
     (Match () [], [0xff, 0x03, 0x00, 0x21]) \<and>
   rendered (format_ppp_header_with_length Little_endian sample_main []
     (memory_of [0xff, 0x03, 0x00, 0x21]) 4) = Some ''PPP ip4'' \<and>
   unformat_ppp_header Little_endian sample_main ''PPP ip4'' [] = (No_match ''PPP ip4'', [])"
  by (simp add: unformat_ppp_header_cases unformat_user_def sample_parse_ip4 sample_parse_label
      sample_format_ip4 rendered_def hi_byte_def lo_byte_def)

text \<open>
  C6, amended: in every consistent registry, before or after handlers are registered, for
  every record whose number is below \<open>2^16\<close> and whose name is a token that does not begin
  with a digit, the name, the number written as \<^verbatim>\<open>0x\<close> and its hexadecimal digits, and
  the number written in decimal digits (either numeric form with any number of leading
  zeros) all parse to the same four bytes \<open>FF\<close>, \<open>03\<close> and the number in network order.
  That header, under the bound 0 or 4, formats to the label \<^verbatim>\<open>PPP\<close>, a blank and the
  name. The text after the label, which is the name, parses back to the same header. The
  text as a whole is not read back as that header: the parser takes the label for a
  protocol name, so the parse fails when no record is named \<^verbatim>\<open>PPP\<close>, and otherwise
  gives the header of the record named \<^verbatim>\<open>PPP\<close> and leaves the blank and the name
  unconsumed.
\<close>

theorem name_and_number_round_trip:
  assumes "registry_consistent pm" and "info \<in> set (protocol_infos pm)"
    and "is_protocol_name (name info)" and "protocol info < 0x10000"
    and "max_header_bytes = 0 \<or> max_header_bytes = 4"
  shows "unformat_ppp_header e pm (name info) result =
           (Match () [], result @ [0xff, 0x03, hi_byte (ucast (protocol info)),
                                   lo_byte (ucast (protocol info))]) \<and>
         unformat_ppp_header e pm (''0x'' @ format_x w (unat (protocol info))) result =
           (Match () [], result @ [0xff, 0x03, hi_byte (ucast (protocol info)),
                                   lo_byte (ucast (protocol info))]) \<and>
         unformat_ppp_header e pm
             (replicate m (CHR ''0'') @ dec_digits (unat (protocol info))) result =
           (Match () [], result @ [0xff, 0x03, hi_byte (ucast (protocol info)),
                                   lo_byte (ucast (protocol info))]) \<and>
         rendered (format_ppp_header_with_length e' pm []
             (memory_of ([0xff, 0x03, hi_byte (ucast (protocol info)),
                          lo_byte (ucast (protocol info))] @ payload)) max_header_bytes) =
           Some (''PPP '' @ name info) \<and>
         unformat_ppp_header e pm (drop 4 (''PPP '' @ name info)) result =
           (Match () [], result @ [0xff, 0x03, hi_byte (ucast (protocol info)),
                                   lo_byte (ucast (protocol info))]) \<and>
         unformat_ppp_header e pm (''PPP '' @ name info) result =
           (case lookup_by_name pm ''PPP'' of
              None \<Rightarrow> (No_match (''PPP '' @ name info), result)
            | Some other \<Rightarrow>
                (Match () ('' '' @ name info),
                 result @ [0xff, 0x03, hi_byte (ucast (protocol other)),
                           lo_byte (ucast (protocol other))]))"
proof -
  let ?hdr = "[0xff, 0x03, hi_byte (ucast (protocol info)), lo_byte (ucast (protocol info) :: u16)]"
  obtain i where i: "i < length (protocol_infos pm)" "protocol_infos pm ! i = info"
    using assms(2) by (auto simp: in_set_conv_nth)
  have idx: "protocol_info_by_name pm (name info) = Some i"
    using consistent_lookup(3)[OF assms(1) i(1)] i(2) by simp
  have rec: "vec_elt_at_index (protocol_infos pm) i = Some info"
    using i by (simp add: vec_elt_at_index_def)
  have "unformat_ppp_protocol_host_byte_order pm (name info) = Match (ucast (protocol info)) []"
    by (rule unformat_protocol_name[OF assms(3) idx rec])
  then have by_name: "unformat_ppp_header e pm (name info) result = (Match () [], result @ ?hdr)"
    by (simp add: unformat_ppp_header_cases unformat_user_def)
  have by_hex: "unformat_ppp_header e pm (''0x'' @ format_x w (unat (protocol info))) result =
                  (Match () [], result @ ?hdr)"
    using unformat_protocol_hex[OF assms(4), of pm w]
    by (simp add: unformat_ppp_header_cases unformat_user_def)
  have by_dec: "unformat_ppp_header e pm
                    (replicate m (CHR ''0'') @ dec_digits (unat (protocol info))) result =
                  (Match () [], result @ ?hdr)"
    using unformat_protocol_decimal[OF assms(4), of pm m]
    by (simp add: unformat_ppp_header_cases unformat_user_def)
  have bound: "max_header_bytes = 0 \<or> 4 \<le> max_header_bytes"
    using assms(5) by auto
  have "ppp_get_protocol_info pm (ucast (ucast (protocol info) :: u16)) = Some info"
    using consistent_lookup(1)[OF assms(1) i(1)] i(2)
    by (simp add: ucast_ucast_small[OF assms(4)])
  then have shown: "rendered (format_ppp_header_with_length e' pm []
                      (memory_of (?hdr @ payload)) max_header_bytes) = Some (''PPP '' @ name info)"
    by (simp add: format_untruncated[OF bound] rendered_def spec_header_text_def memory_of_def
        net_u16_bytes)
  have whole: "unformat_ppp_header e pm (''PPP '' @ name info) result =
           (case lookup_by_name pm ''PPP'' of
              None \<Rightarrow> (No_match (''PPP '' @ name info), result)
            | Some other \<Rightarrow>
                (Match () ('' '' @ name info),
                 result @ [0xff, 0x03, hi_byte (ucast (protocol other)),
                           lo_byte (ucast (protocol other))]))"
    unfolding unformat_ppp_header_cases unformat_protocol_label[OF assms(1) assms(3)]
    by (simp split: option.split)
  from by_name by_hex by_dec shown whole show ?thesis by simp
qed

text \<open>
  The record of IPv4 in the registry with its handler registered: \<^verbatim>\<open>ip4\<close>,
  \<^verbatim>\<open>0x21\<close> and \<^verbatim>\<open>33\<close> all parse to \<open>FF 03 00 21\<close>, which formats to
  \<^verbatim>\<open>PPP ip4\<close>, which does not parse.
\<close>

theorem name_and_number_round_trip_ip4:
  "registry_consistent sample_main_registered \<and>
   \<lparr>name = ''ip4'', protocol = 0x0021, node_index = 0, next_index = NOT 0\<rparr>
     \<in> set (protocol_infos sample_main_registered) \<and>
   is_protocol_name ''ip4'' \<and>
   unformat_ppp_header Little_endian sample_main_registered ''ip4'' [] =
     (Match () [], [0xff, 0x03, 0x00, 0x21]) \<and>
   unformat_ppp_header Little_endian sample_main_registered ''0x21'' [] =
     (Match () [], [0xff, 0x03, 0x00, 0x21]) \<and>
   unformat_ppp_header Little_endian sample_main_registered ''33'' [] =
     (Match () [], [0xff, 0x03, 0x00, 0x21]) \<and>
   rendered (format_ppp_header_with_length Little_endian sample_main_registered []
     (memory_of [0xff, 0x03, 0x00, 0x21]) 4) = Some ''PPP ip4'' \<and>
   unformat_ppp_header Little_endian sample_main_registered ''PPP ip4'' [] =
     (No_match ''PPP ip4'', [])"
proof -
  let ?info = "\<lparr>name = ''ip4'', protocol = 0x0021, node_index = 0, next_index = NOT 0\<rparr>"
  have inv: "registry_consistent sample_main_registered"
    by (rule sample_registered_consistent)
  have row: "?info \<in> set (protocol_infos sample_main_registered)"
    by (simp add: sample_registered_infos)
  have nm: "is_protocol_name (name ?info)"
    by (simp add: is_protocol_name_def dec_value_def is_token_char_def)
  have small: "protocol ?info < 0x10000" by simp
  have bound: "(4 :: u32) = 0 \<or> (4 :: u32) = 4" by simp
  have hex: "format_x 0 0x21 = ''21''"
    by (simp add: format_x_def hex_digits.simps hex_digit_def)
  have dec: "dec_digits 33 = ''33''"
    by (simp add: dec_digits.simps dec_digit_def)
  have bytes: "hi_byte 0x0021 = 0x00" "lo_byte 0x0021 = 0x21"
    by (simp_all add: hi_byte_def lo_byte_def)
  have label: "lookup_by_name sample_main_registered ''PPP'' = None"
    by (simp add: sample_registered_by_name lookup_by_name_def)
  note inst = name_and_number_round_trip[OF inv row nm small bound,
      of Little_endian "[]" 0 0 Little_endian "[]"]
  from inst inv row nm show ?thesis
    by (simp add: hex dec bytes label)
qed

end
